theory Spec2Isabelle
  imports Main "HOL-Library.Word"
begin

section \<open>The mbuf module of ccommon (src/cc\_mbuf.c)\<close>

text \<open>
  A shallow embedding of \<^verbatim>\<open>cc_mbuf.c\<close>. Addresses (\<^verbatim>\<open>uint8_t *\<close>, \<^verbatim>\<open>struct mbuf *\<close>) are
  natural numbers, a nullable pointer is an \<open>option\<close>, \<^verbatim>\<open>uint32_t\<close> is \<open>32 word\<close> and a
  pointer difference is an \<open>int\<close> that a cast to \<^verbatim>\<open>uint32_t\<close> reduces modulo \<open>2 ^ 32\<close>.
  The store has two parts: the byte memory \<open>mem\<close>, and the \<^verbatim>\<open>struct mbuf\<close> objects \<open>obj\<close>,
  keyed by their address (the header of a buffer sits at its \<^verbatim>\<open>end\<close>).

  In the program a header is itself \<open>MBUF_HDR_SIZE\<close> bytes of the chunk, at
  \<open>[end, end + MBUF_HDR_SIZE)\<close>; its layout is declared in the absent \<^verbatim>\<open>cc_mbuf.h\<close>. The
  embedding keeps the fields in \<open>obj\<close> and does not mirror them in \<open>mem\<close>: an assignment
  to a field leaves \<open>mem\<close> as it was, and a byte written to \<open>mem\<close> changes no field. The
  embedding therefore describes the program on the executions in which the bytes that
  \<^verbatim>\<open>cc_memcpy\<close> and \<^verbatim>\<open>cc_memmove\<close> read and write are not bytes of a header whose fields
  are assigned; a result that speaks of bytes says where its byte ranges lie.
\<close>

subsection \<open>Data\<close>

text \<open>\<^verbatim>\<open>struct mbuf\<close>; the fields \<^verbatim>\<open>next\<close> and \<^verbatim>\<open>end\<close> are spelled \<open>next_p\<close> and \<open>end_p\<close>.\<close>

record mbuf =
  magic :: "32 word"
  next_p :: "nat option"
  rpos :: nat
  wpos :: nat
  start :: nat
  end_p :: nat

text \<open>\<^verbatim>\<open>struct bstring\<close>: a length and a pointer to the bytes.\<close>

record bstring =
  len :: "32 word"
  data :: nat

text \<open>
  Modelled from the spec: \<^verbatim>\<open>struct mbuf_pool\<close>, which \<^verbatim>\<open>FREEPOOL(mbuf_pool, mbufq, mbuf)\<close>
  of the absent \<^verbatim>\<open>cc_pool.h\<close> declares. The spec gives the pool a \<open>free_list\<close>, a
  \<open>free_count\<close> (the source reads \<^verbatim>\<open>mbufp.nfree\<close>) and a \<open>max_count\<close>.
\<close>

record mbuf_pool =
  freeq :: "nat list"
  nfree :: "32 word"
  nmax :: "32 word"

text \<open>
  The program state: the byte memory, the \<^verbatim>\<open>struct mbuf\<close> objects, and the three
  file-scope variables \<^verbatim>\<open>mbufp\<close>, \<^verbatim>\<open>mbuf_chunk_size\<close> and \<^verbatim>\<open>mbuf_offset\<close>.
\<close>

record state =
  mem :: "nat \<Rightarrow> 8 word"
  obj :: "nat \<Rightarrow> mbuf"
  mbufp :: mbuf_pool
  mbuf_chunk_size :: "32 word"
  mbuf_offset :: "32 word"

text \<open>
  A call either returns a value and the state it leaves, or stops the program: at a failed
  assertion, or in \<^verbatim>\<open>memcpy\<close> on overlapping areas (undefined in C). \<open>Stop\<close> carries the
  state at the moment the program stopped.
\<close>

datatype fault = Assertion_failed | Overlapping_memcpy

datatype 'a outcome = Stop fault state | Return 'a state

subsection \<open>Collaborators that are not part of cc\_mbuf.c\<close>

text \<open>
  Modelled from the spec: \<^verbatim>\<open>ASSERT\<close> of \<^verbatim>\<open>cc_debug.h\<close>, which is not among the sources.
  The spec reports a violated precondition "via an unconditional abort-style assertion",
  "fatal, not recoverable".
\<close>

definition ASSERT :: "bool \<Rightarrow> state \<Rightarrow> unit outcome" where
  "ASSERT c s = (if c then Return () s else Stop Assertion_failed s)"

text \<open>
  Modelled from the spec: \<^verbatim>\<open>MBUF_MAGIC\<close> of \<^verbatim>\<open>cc_mbuf.h\<close>, "a fixed sentinel value".
  No result below depends on the value chosen.
\<close>

definition MBUF_MAGIC :: "32 word" where
  "MBUF_MAGIC = 0xdeadbeef"

text \<open>
  Modelled from the spec: \<^verbatim>\<open>mbuf_full\<close> of \<^verbatim>\<open>cc_mbuf.h\<close>. A buffer is full when its
  writable size \<open>end - wpos\<close> is zero, that is when \<open>wpos\<close> has reached \<open>end\<close>.
\<close>

definition mbuf_full :: "nat \<Rightarrow> state \<Rightarrow> bool" where
  "mbuf_full p s = (wpos (obj s p) = end_p (obj s p))"

text \<open>
  Modelled from the spec: \<^verbatim>\<open>cc_memmove\<close> of \<^verbatim>\<open>cc_mm.h\<close> (the C \<^verbatim>\<open>memmove\<close>): "source and
  destination ranges may overlap; the copy must be safe under overlap". Every destination
  byte receives the byte the source held before the call.
\<close>

definition cc_memmove :: "nat \<Rightarrow> nat \<Rightarrow> nat \<Rightarrow> state \<Rightarrow> state" where
  "cc_memmove dst src n s =
     s\<lparr>mem := (\<lambda>a. if dst \<le> a \<and> a < dst + n then mem s (src + (a - dst)) else mem s a)\<rparr>"

text \<open>
  Modelled from the spec: \<^verbatim>\<open>cc_memcpy\<close> of \<^verbatim>\<open>cc_mm.h\<close> (the C \<^verbatim>\<open>memcpy\<close>): "copy
  semantics assume disjoint regions". On overlapping areas the behaviour of \<^verbatim>\<open>memcpy\<close> is
  undefined; the model stops there with \<open>Overlapping_memcpy\<close>.
\<close>

definition cc_memcpy :: "nat \<Rightarrow> nat \<Rightarrow> nat \<Rightarrow> state \<Rightarrow> unit outcome" where
  "cc_memcpy dst src n s =
     (if dst < src + n \<and> src < dst + n then Stop Overlapping_memcpy s
      else Return () (cc_memmove dst src n s))"

subsection \<open>Reading and writing the store\<close>

text \<open>
  \<open>upd p f s\<close> is the assignment to fields of \<^verbatim>\<open>*p\<close>. It changes \<open>obj\<close> only: the bytes
  \<open>[p, p + MBUF_HDR_SIZE)\<close> of \<open>mem\<close> do not stand for the fields (see the head of this
  theory), so results about bytes keep their ranges clear of the header that is assigned.
  \<open>bytes s a n\<close> reads \<open>[a, a + n)\<close>.
\<close>

definition upd :: "nat \<Rightarrow> (mbuf \<Rightarrow> mbuf) \<Rightarrow> state \<Rightarrow> state" where
  "upd p f s = s\<lparr>obj := (obj s)(p := f (obj s p))\<rparr>"

definition bytes :: "state \<Rightarrow> nat \<Rightarrow> nat \<Rightarrow> 8 word list" where
  "bytes s a n = map (mem s) [a ..< a + n]"

text \<open>The cast \<^verbatim>\<open>(uint32_t)(p - q)\<close> of a pointer difference.\<close>

definition ptrdiff32 :: "nat \<Rightarrow> nat \<Rightarrow> 32 word" where
  "ptrdiff32 p q = word_of_int (int p - int q)"

subsection \<open>The functions of cc\_mbuf.c\<close>

text \<open>
  Sequencing: \<open>seq r k\<close> runs \<open>k\<close> on the value and state that \<open>r\<close> returned; a program
  that has stopped stays stopped.
\<close>

definition seq :: "'a outcome \<Rightarrow> ('a \<Rightarrow> state \<Rightarrow> 'b outcome) \<Rightarrow> 'b outcome" where
  "seq r k = (case r of Stop f s \<Rightarrow> Stop f s | Return x s \<Rightarrow> k x s)"

text \<open>
  \<^verbatim>\<open>mbuf_create\<close>. The allocator \<^verbatim>\<open>cc_alloc\<close> is a parameter: it maps the size asked for
  to the address of the block, or to \<open>None\<close> (\<^verbatim>\<open>NULL\<close>). The fields \<^verbatim>\<open>rpos\<close>, \<^verbatim>\<open>wpos\<close> and
  \<^verbatim>\<open>next\<close> are not assigned: they keep whatever the store held.
\<close>

definition mbuf_create :: "(nat \<Rightarrow> nat option) \<Rightarrow> state \<Rightarrow> nat option outcome" where
  "mbuf_create cc_alloc s =
     (case cc_alloc (unat (mbuf_chunk_size s)) of
        None \<Rightarrow> Return None s
      | Some buf \<Rightarrow>
          (let p = buf + unat (mbuf_offset s);
               s1 = upd p (\<lambda>m. m\<lparr>magic := MBUF_MAGIC\<rparr>) s;
               s2 = upd p (\<lambda>m. m\<lparr>end_p := p\<rparr>) s1;
               s3 = upd p (\<lambda>m. m\<lparr>start := buf\<rparr>) s2
           in Return (Some p) s3))"

definition mbuf_reset :: "nat \<Rightarrow> state \<Rightarrow> state" where
  "mbuf_reset p s =
     (let s1 = upd p (\<lambda>m. m\<lparr>rpos := start m\<rparr>) s
      in upd p (\<lambda>m. m\<lparr>wpos := start m\<rparr>) s1)"

definition mbuf_rsize :: "nat \<Rightarrow> state \<Rightarrow> 32 word outcome" where
  "mbuf_rsize p s =
     seq (ASSERT (wpos (obj s p) \<ge> rpos (obj s p)) s)
       (\<lambda>_ s1. Return (ptrdiff32 (wpos (obj s1 p)) (rpos (obj s1 p))) s1)"

definition mbuf_wsize :: "nat \<Rightarrow> state \<Rightarrow> 32 word outcome" where
  "mbuf_wsize p s =
     seq (ASSERT (end_p (obj s p) \<ge> wpos (obj s p)) s)
       (\<lambda>_ s1. Return (ptrdiff32 (end_p (obj s1 p)) (wpos (obj s1 p))) s1)"

definition mbuf_capacity :: "state \<Rightarrow> 32 word" where
  "mbuf_capacity s = mbuf_offset s"

definition mbuf_lshift :: "nat \<Rightarrow> state \<Rightarrow> unit outcome" where
  "mbuf_lshift p s =
     seq (mbuf_rsize p s)
       (\<lambda>sz s1.
          let s2 = cc_memmove (start (obj s1 p)) (rpos (obj s1 p)) (unat sz) s1;
              s3 = upd p (\<lambda>m. m\<lparr>rpos := start m\<rparr>) s2;
              s4 = upd p (\<lambda>m. m\<lparr>wpos := start m + unat sz\<rparr>) s3
          in Return () s4)"

text \<open>
  \<^verbatim>\<open>mbuf_rshift\<close>. \<^verbatim>\<open>mbuf->end - sz\<close> is a subtraction of natural numbers here; \<open>sz\<close> is at
  most \<open>wpos - rpos\<close>, so with ordered cursors it never exceeds \<open>end - start\<close>.
\<close>

definition mbuf_rshift :: "nat \<Rightarrow> state \<Rightarrow> unit outcome" where
  "mbuf_rshift p s =
     seq (mbuf_rsize p s)
       (\<lambda>sz s1.
          let s2 = cc_memmove (end_p (obj s1 p) - unat sz) (rpos (obj s1 p)) (unat sz) s1;
              s3 = upd p (\<lambda>m. m\<lparr>rpos := end_p m - unat sz\<rparr>) s2;
              s4 = upd p (\<lambda>m. m\<lparr>wpos := end_p m\<rparr>) s3
          in Return () s4)"

text \<open>
  \<^verbatim>\<open>mbuf_copy\<close>. The first assertion is \<^verbatim>\<open>!mbuf_full(mbuf) && n <= mbuf_wsize(mbuf)\<close>:
  \<^verbatim>\<open>&&\<close> does not call \<^verbatim>\<open>mbuf_wsize\<close> (which asserts itself) on a full buffer;
  \<open>has_space\<close> is that condition.
\<close>

definition has_space :: "nat \<Rightarrow> 32 word \<Rightarrow> state \<Rightarrow> bool outcome" where
  "has_space p n s =
     (if mbuf_full p s then Return False s
      else seq (mbuf_wsize p s) (\<lambda>w s1. Return (n \<le> w) s1))"

definition mbuf_copy :: "nat \<Rightarrow> nat \<Rightarrow> 32 word \<Rightarrow> state \<Rightarrow> unit outcome" where
  "mbuf_copy p addr n s =
     (if n = 0 then Return () s
      else
        seq (has_space p n s) (\<lambda>c s1.
        seq (ASSERT c s1) (\<lambda>_ s2.
        seq (ASSERT (addr < start (obj s2 p) \<or> addr \<ge> end_p (obj s2 p)) s2) (\<lambda>_ s3.
        seq (cc_memcpy (wpos (obj s3 p)) addr (unat n) s3) (\<lambda>_ s4.
        Return () (upd p (\<lambda>m. m\<lparr>wpos := wpos m + unat n\<rparr>) s4))))))"

definition mbuf_copy_bstring :: "nat \<Rightarrow> bstring \<Rightarrow> state \<Rightarrow> unit outcome" where
  "mbuf_copy_bstring p bstr s = mbuf_copy p (data bstr) (len bstr) s"

text \<open>
  Modelled from the spec: \<^verbatim>\<open>FREEPOOL_BORROW\<close> of \<^verbatim>\<open>cc_pool.h\<close>, which is not among the
  sources: "if the free list is non-empty, detaches and returns its head; otherwise calls
  \<open>Buffer.create()\<close>". \<open>createf\<close> is the creating function.
\<close>

definition FREEPOOL_BORROW :: "(state \<Rightarrow> nat option outcome) \<Rightarrow> state \<Rightarrow> nat option outcome" where
  "FREEPOOL_BORROW createf s =
     (case freeq (mbufp s) of
        p # rest \<Rightarrow>
          Return (Some p) (s\<lparr>mbufp := (mbufp s)\<lparr>freeq := rest, nfree := nfree (mbufp s) - 1\<rparr>\<rparr>)
      | [] \<Rightarrow> createf s)"

definition mbuf_borrow :: "(nat \<Rightarrow> nat option) \<Rightarrow> state \<Rightarrow> nat option outcome" where
  "mbuf_borrow cc_alloc s =
     seq (FREEPOOL_BORROW (mbuf_create cc_alloc) s)
       (\<lambda>mbuf s1. case mbuf of
                    None \<Rightarrow> Return None s1
                  | Some p \<Rightarrow> Return (Some p) (mbuf_reset p s1))"

text \<open>
  \<^verbatim>\<open>mbuf_split\<close>. The callback \<open>cb\<close> of type \<^verbatim>\<open>mbuf_copy_t\<close> is any function of the new
  buffer, its argument and the state; \<open>None\<close> is \<^verbatim>\<open>NULL\<close>. \<open>precopy\<close> is the statement
  \<^verbatim>\<open>if (cb != NULL) { cb(nbuf, cbarg); }\<close>, and \<open>split_copy\<close> is what follows it.
\<close>

type_synonym 'a mbuf_copy_t = "nat \<Rightarrow> 'a \<Rightarrow> state \<Rightarrow> unit outcome"

definition precopy :: "'a mbuf_copy_t option \<Rightarrow> nat \<Rightarrow> 'a \<Rightarrow> state \<Rightarrow> unit outcome" where
  "precopy cb nbuf cbarg s = (case cb of None \<Rightarrow> Return () s | Some f \<Rightarrow> f nbuf cbarg s)"

definition split_copy :: "nat \<Rightarrow> nat \<Rightarrow> nat \<Rightarrow> state \<Rightarrow> nat option outcome" where
  "split_copy p nbuf addr s =
     (let sz = ptrdiff32 (wpos (obj s p)) addr in
      seq (mbuf_copy nbuf addr sz s)
        (\<lambda>_ s1. Return (Some nbuf) (upd p (\<lambda>m. m\<lparr>wpos := addr\<rparr>) s1)))"

definition mbuf_split ::
  "(nat \<Rightarrow> nat option) \<Rightarrow> nat \<Rightarrow> nat \<Rightarrow> 'a mbuf_copy_t option \<Rightarrow> 'a \<Rightarrow> state \<Rightarrow> nat option outcome" where
  "mbuf_split cc_alloc p addr cb cbarg s =
     seq (mbuf_borrow cc_alloc s)
       (\<lambda>r s1. case r of
                 None \<Rightarrow> Return None s1
               | Some nbuf \<Rightarrow>
                   seq (precopy cb nbuf cbarg s1) (\<lambda>_ s2. split_copy p nbuf addr s2))"

text \<open>
  \<^verbatim>\<open>mbuf_setup\<close>. \<^verbatim>\<open>MBUF_HDR_SIZE\<close> (\<^verbatim>\<open>cc_mbuf.h\<close>, the size of \<^verbatim>\<open>struct mbuf\<close> on the
  platform) is the parameter \<open>hdr_size\<close>; the subtraction is stored in a \<^verbatim>\<open>uint32_t\<close>.
\<close>

definition mbuf_setup :: "nat \<Rightarrow> 32 word \<Rightarrow> state \<Rightarrow> unit outcome" where
  "mbuf_setup hdr_size chunk_size s =
     (let s1 = s\<lparr>mbuf_chunk_size := chunk_size\<rparr>;
          s2 = s1\<lparr>mbuf_offset := word_of_int (uint (mbuf_chunk_size s1) - int hdr_size)\<rparr>
      in ASSERT (mbuf_offset s2 > 0 \<and> mbuf_offset s2 < mbuf_chunk_size s2) s2)"

text \<open>\<^verbatim>\<open>mbuf_teardown\<close> writes a log line and nothing else.\<close>

definition mbuf_teardown :: "state \<Rightarrow> state" where
  "mbuf_teardown s = s"

subsection \<open>Predicates and the states used as examples\<close>

text \<open>The cursor ordering \<open>start \<le> rpos \<le> wpos \<le> end\<close> of one buffer.\<close>

definition cursors_ordered :: "mbuf \<Rightarrow> bool" where
  "cursors_ordered m = (start m \<le> rpos m \<and> rpos m \<le> wpos m \<and> wpos m \<le> end_p m)"

text \<open>The state \<^verbatim>\<open>mbuf_create\<close> leaves when \<^verbatim>\<open>cc_alloc\<close> has returned the block \<open>buf\<close>.\<close>

definition created :: "nat \<Rightarrow> state \<Rightarrow> state" where
  "created buf s =
     upd (buf + unat (mbuf_offset s)) (\<lambda>m. m\<lparr>start := buf\<rparr>)
       (upd (buf + unat (mbuf_offset s)) (\<lambda>m. m\<lparr>end_p := buf + unat (mbuf_offset s)\<rparr>)
          (upd (buf + unat (mbuf_offset s)) (\<lambda>m. m\<lparr>magic := MBUF_MAGIC\<rparr>) s))"

text \<open>
  An example state: chunks of 64 bytes with a body of 16, the byte at address \<open>a\<close> holding
  \<open>a mod 256\<close>, an empty free list, and one buffer, whose header is at 116, with body
  \<open>[100, 116)\<close> and readable bytes \<open>[102, 105)\<close>. The example allocator hands out the block
  at 200, and the example callback copies two bytes from the address it is given.
\<close>

definition blank :: mbuf where
  "blank = \<lparr>magic = 0, next_p = None, rpos = 0, wpos = 0, start = 0, end_p = 0\<rparr>"

definition ex_state :: state where
  "ex_state =
     \<lparr>mem = (\<lambda>a. of_nat a),
      obj = (\<lambda>_. blank)(116 := \<lparr>magic = MBUF_MAGIC, next_p = None, rpos = 102, wpos = 105,
                                  start = 100, end_p = 116\<rparr>),
      mbufp = \<lparr>freeq = [], nfree = 0, nmax = 0\<rparr>,
      mbuf_chunk_size = 64,
      mbuf_offset = 16\<rparr>"

definition ex_alloc :: "nat \<Rightarrow> nat option" where
  "ex_alloc n = Some 200"

definition ex_cb :: "nat mbuf_copy_t" where
  "ex_cb nbuf arg s = mbuf_copy nbuf arg 2 s"

text \<open>An allocator that is out of memory, and a callback that stops the program.\<close>

definition failing_alloc :: "nat \<Rightarrow> nat option" where
  "failing_alloc n = None"

definition stopping_cb :: "nat mbuf_copy_t" where
  "stopping_cb nbuf arg s = Stop Assertion_failed s"

text \<open>The example state with the example buffer in the free list.\<close>

definition pooled_state :: state where
  "pooled_state = ex_state\<lparr>mbufp := \<lparr>freeq = [116], nfree = 1, nmax = 0\<rparr>\<rparr>"

text \<open>
  A client of the module after \<^verbatim>\<open>mbuf_setup\<close>: a sequence of calls of the functions
  embedded above, \<^verbatim>\<open>mbuf_setup\<close> itself left out. (The queue and pool functions
  \<^verbatim>\<open>mbuf_insert\<close>, \<^verbatim>\<open>mbuf_remove\<close>, \<^verbatim>\<open>mbuf_destroy\<close>, \<^verbatim>\<open>mbuf_return\<close>, \<^verbatim>\<open>mbuf_pool_create\<close> and
  \<^verbatim>\<open>mbuf_pool_destroy\<close> consist of macros of absent headers and are not embedded; in the
  source \<^verbatim>\<open>mbuf_setup\<close> is the only function that assigns \<^verbatim>\<open>mbuf_offset\<close>.) \<open>exec\<close> makes
  one call and drops its result, \<open>run\<close> makes the calls in order and stops where one of
  them stops. \<open>cb_keeps_offset\<close> says of the callback of a split that it leaves the
  file-scope variable \<^verbatim>\<open>mbuf_offset\<close> alone (the variable is \<^verbatim>\<open>static\<close>: code outside
  \<^verbatim>\<open>cc_mbuf.c\<close> cannot name it).
\<close>

datatype 'a call =
    Create "nat \<Rightarrow> nat option"
  | Reset nat
  | Lshift nat
  | Rshift nat
  | Copy nat nat "32 word"
  | Copy_bstring nat bstring
  | Borrow "nat \<Rightarrow> nat option"
  | Split "nat \<Rightarrow> nat option" nat nat "'a mbuf_copy_t option" 'a
  | Rsize nat
  | Wsize nat
  | Teardown

fun exec :: "'a call \<Rightarrow> state \<Rightarrow> unit outcome" where
  "exec (Create cc_alloc) s = seq (mbuf_create cc_alloc s) (\<lambda>_. Return ())"
| "exec (Reset p) s = Return () (mbuf_reset p s)"
| "exec (Lshift p) s = mbuf_lshift p s"
| "exec (Rshift p) s = mbuf_rshift p s"
| "exec (Copy p addr n) s = mbuf_copy p addr n s"
| "exec (Copy_bstring p bstr) s = mbuf_copy_bstring p bstr s"
| "exec (Borrow cc_alloc) s = seq (mbuf_borrow cc_alloc s) (\<lambda>_. Return ())"
| "exec (Split cc_alloc p addr cb cbarg) s =
     seq (mbuf_split cc_alloc p addr cb cbarg s) (\<lambda>_. Return ())"
| "exec (Rsize p) s = seq (mbuf_rsize p s) (\<lambda>_. Return ())"
| "exec (Wsize p) s = seq (mbuf_wsize p s) (\<lambda>_. Return ())"
| "exec Teardown s = Return () (mbuf_teardown s)"

fun run :: "'a call list \<Rightarrow> state \<Rightarrow> unit outcome" where
  "run [] s = Return () s"
| "run (c # cs) s = seq (exec c s) (\<lambda>_. run cs)"

fun cb_keeps_offset :: "'a call \<Rightarrow> bool" where
  "cb_keeps_offset (Split cc_alloc p addr cb cbarg) =
     (\<forall>nbuf s t. precopy cb nbuf cbarg s = Return () t \<longrightarrow> mbuf_offset t = mbuf_offset s)"
| "cb_keeps_offset _ = True"

text \<open>Two more allocators, and a sequence of calls on a buffer borrowed after the setup.\<close>

definition ex_alloc2 :: "nat \<Rightarrow> nat option" where
  "ex_alloc2 n = Some 5000"

definition ex_alloc3 :: "nat \<Rightarrow> nat option" where
  "ex_alloc3 n = Some 9000"

definition ex_calls :: "nat call list" where
  "ex_calls = [Borrow ex_alloc, Copy 2184 3000 5, Split ex_alloc2 2184 202 (Some ex_cb) 4000,
               Lshift 2184, Rsize 2184, Teardown]"

section \<open>Auxiliary facts\<close>

subsection \<open>Pointer differences\<close>

lemma ptrdiff32_of_nat: "q \<le> p \<Longrightarrow> ptrdiff32 p q = of_nat (p - q)"
  by (simp add: ptrdiff32_def of_nat_diff)

lemma unat_ptrdiff32: "q \<le> p \<Longrightarrow> unat (ptrdiff32 p q) = (p - q) mod 2 ^ 32"
  by (simp only: ptrdiff32_of_nat unat_of_nat) simp

lemma ptrdiff32_le: "q \<le> p \<Longrightarrow> unat (ptrdiff32 p q) \<le> p - q"
  by (simp add: unat_ptrdiff32)

lemma ptrdiff32_exact: "q \<le> p \<Longrightarrow> p - q < 2 ^ 32 \<Longrightarrow> unat (ptrdiff32 p q) = p - q"
  by (simp add: unat_ptrdiff32)

subsection \<open>What a returning call has checked and done\<close>

lemma seq_Return_iff: "seq r k = Return y t \<longleftrightarrow> (\<exists>x s1. r = Return x s1 \<and> k x s1 = Return y t)"
  by (cases r) (auto simp: seq_def)

lemma ASSERT_Return_iff: "ASSERT c s = Return u t \<longleftrightarrow> c \<and> t = s"
  by (auto simp: ASSERT_def)

lemma obj_upd: "obj (upd p f s) q = (if q = p then f (obj s p) else obj s q)"
  by (simp add: upd_def)

lemma mem_upd: "mem (upd p f s) = mem s"
  by (simp add: upd_def)

lemma obj_cc_memmove: "obj (cc_memmove d a n s) = obj s"
  by (simp add: cc_memmove_def)

lemma mbuf_rsize_Return_iff:
  "mbuf_rsize p s = Return sz t \<longleftrightarrow>
     rpos (obj s p) \<le> wpos (obj s p) \<and> t = s \<and> sz = ptrdiff32 (wpos (obj s p)) (rpos (obj s p))"
  by (auto simp: mbuf_rsize_def seq_Return_iff ASSERT_Return_iff)

lemma mbuf_wsize_Return_iff:
  "mbuf_wsize p s = Return w t \<longleftrightarrow>
     wpos (obj s p) \<le> end_p (obj s p) \<and> t = s \<and> w = ptrdiff32 (end_p (obj s p)) (wpos (obj s p))"
  by (auto simp: mbuf_wsize_def seq_Return_iff ASSERT_Return_iff)

lemma has_space_Return_iff:
  "has_space p n s = Return c t \<longleftrightarrow>
     t = s \<and> wpos (obj s p) \<le> end_p (obj s p) \<and>
     c = (wpos (obj s p) \<noteq> end_p (obj s p) \<and> n \<le> ptrdiff32 (end_p (obj s p)) (wpos (obj s p)))"
  by (auto simp: has_space_def mbuf_full_def seq_Return_iff mbuf_wsize_Return_iff)

lemma cc_memcpy_Return_iff:
  "cc_memcpy d a n s = Return u t \<longleftrightarrow> \<not> (d < a + n \<and> a < d + n) \<and> t = cc_memmove d a n s"
  by (auto simp: cc_memcpy_def)

text \<open>What a returning \<^verbatim>\<open>mbuf_copy\<close> has checked and done.\<close>

lemma mbuf_copy_Return_iff:
  "mbuf_copy p addr n s = Return u t \<longleftrightarrow>
     (if n = 0 then t = s
      else wpos (obj s p) < end_p (obj s p) \<and>
           n \<le> ptrdiff32 (end_p (obj s p)) (wpos (obj s p)) \<and>
           (addr < start (obj s p) \<or> end_p (obj s p) \<le> addr) \<and>
           \<not> (wpos (obj s p) < addr + unat n \<and> addr < wpos (obj s p) + unat n) \<and>
           t = upd p (\<lambda>m. m\<lparr>wpos := wpos m + unat n\<rparr>)
                 (cc_memmove (wpos (obj s p)) addr (unat n) s))"
  by (auto simp: mbuf_copy_def seq_Return_iff has_space_Return_iff ASSERT_Return_iff
        cc_memcpy_Return_iff)

lemma obj_mbuf_reset:
  "obj (mbuf_reset p s) q =
     (if q = p then (obj s p)\<lparr>rpos := start (obj s p), wpos := start (obj s p)\<rparr> else obj s q)"
  by (simp add: mbuf_reset_def obj_upd Let_def)

lemma mbuf_reset_ordered:
  "start (obj s p) \<le> end_p (obj s p) \<Longrightarrow> cursors_ordered (obj (mbuf_reset p s) p)"
  by (simp add: obj_mbuf_reset cursors_ordered_def)

lemma mbuf_reset_preserves:
  "cursors_ordered (obj s q) \<Longrightarrow> cursors_ordered (obj (mbuf_reset p s) q)"
  by (auto simp: obj_mbuf_reset cursors_ordered_def)

lemma word_le_unat_ptrdiff:
  assumes "n \<le> ptrdiff32 e w" and "w \<le> e"
  shows "w + unat n \<le> e"
proof -
  have "unat n \<le> unat (ptrdiff32 e w)" using assms(1) by (simp add: word_le_nat_alt)
  also have "\<dots> \<le> e - w" using assms(2) by (rule ptrdiff32_le)
  finally show ?thesis using assms(2) by simp
qed

lemma mbuf_copy_preserves:
  assumes "cursors_ordered (obj s q)" and "mbuf_copy p addr n s = Return u t"
  shows "cursors_ordered (obj t q)"
proof (cases "n = 0")
  case True
  with assms show ?thesis by (simp add: mbuf_copy_Return_iff)
next
  case False
  with assms(2) have w: "wpos (obj s p) < end_p (obj s p)"
    and n: "n \<le> ptrdiff32 (end_p (obj s p)) (wpos (obj s p))"
    and t: "t = upd p (\<lambda>m. m\<lparr>wpos := wpos m + unat n\<rparr>)
                 (cc_memmove (wpos (obj s p)) addr (unat n) s)"
    by (simp_all add: mbuf_copy_Return_iff)
  from n w have "wpos (obj s p) + unat n \<le> end_p (obj s p)"
    by (simp add: word_le_unat_ptrdiff)
  with assms(1) show ?thesis
    by (auto simp: t obj_upd obj_cc_memmove cursors_ordered_def)
qed

lemma mbuf_lshift_Return_iff:
  "mbuf_lshift p s = Return u t \<longleftrightarrow>
     rpos (obj s p) \<le> wpos (obj s p) \<and>
     t = upd p (\<lambda>m. m\<lparr>wpos := start m + unat (ptrdiff32 (wpos (obj s p)) (rpos (obj s p)))\<rparr>)
           (upd p (\<lambda>m. m\<lparr>rpos := start m\<rparr>)
              (cc_memmove (start (obj s p)) (rpos (obj s p))
                 (unat (ptrdiff32 (wpos (obj s p)) (rpos (obj s p)))) s))"
  by (auto simp: mbuf_lshift_def seq_Return_iff mbuf_rsize_Return_iff Let_def)

lemma mbuf_rshift_Return_iff:
  "mbuf_rshift p s = Return u t \<longleftrightarrow>
     rpos (obj s p) \<le> wpos (obj s p) \<and>
     t = upd p (\<lambda>m. m\<lparr>wpos := end_p m\<rparr>)
           (upd p (\<lambda>m. m\<lparr>rpos := end_p m - unat (ptrdiff32 (wpos (obj s p)) (rpos (obj s p)))\<rparr>)
              (cc_memmove (end_p (obj s p) - unat (ptrdiff32 (wpos (obj s p)) (rpos (obj s p))))
                 (rpos (obj s p)) (unat (ptrdiff32 (wpos (obj s p)) (rpos (obj s p)))) s))"
  by (auto simp: mbuf_rshift_def seq_Return_iff mbuf_rsize_Return_iff Let_def)

lemma mbuf_lshift_preserves:
  assumes "cursors_ordered (obj s q)" and "mbuf_lshift p s = Return u t"
  shows "cursors_ordered (obj t q)"
proof -
  from assms(2) have r: "rpos (obj s p) \<le> wpos (obj s p)" by (simp add: mbuf_lshift_Return_iff)
  have "unat (ptrdiff32 (wpos (obj s p)) (rpos (obj s p))) \<le> wpos (obj s p) - rpos (obj s p)"
    using r by (rule ptrdiff32_le)
  with assms show ?thesis
    by (auto simp: mbuf_lshift_Return_iff obj_upd obj_cc_memmove cursors_ordered_def)
qed

lemma mbuf_rshift_preserves:
  assumes "cursors_ordered (obj s q)" and "mbuf_rshift p s = Return u t"
  shows "cursors_ordered (obj t q)"
proof -
  from assms(2) have r: "rpos (obj s p) \<le> wpos (obj s p)" by (simp add: mbuf_rshift_Return_iff)
  have "unat (ptrdiff32 (wpos (obj s p)) (rpos (obj s p))) \<le> wpos (obj s p) - rpos (obj s p)"
    using r by (rule ptrdiff32_le)
  with assms show ?thesis
    by (auto simp: mbuf_rshift_Return_iff obj_upd obj_cc_memmove cursors_ordered_def)
qed

lemma split_copy_Return_iff:
  "split_copy p nb addr s = Return r t \<longleftrightarrow>
     r = Some nb \<and>
     (\<exists>s1. mbuf_copy nb addr (ptrdiff32 (wpos (obj s p)) addr) s = Return () s1 \<and>
           t = upd p (\<lambda>m. m\<lparr>wpos := addr\<rparr>) s1)"
  by (auto simp: split_copy_def seq_Return_iff Let_def)

lemma mbuf_split_Return_Some:
  assumes "mbuf_borrow cc_alloc s = Return (Some nb) s1"
    and "precopy cb nb cbarg s1 = Return () s2"
  shows "mbuf_split cc_alloc p addr cb cbarg s = split_copy p nb addr s2"
  using assms by (simp add: mbuf_split_def seq_def)

lemma split_copy_preserves:
  assumes p: "cursors_ordered (obj s p)" and cut: "rpos (obj s p) \<le> addr" "addr \<le> wpos (obj s p)"
    and nb: "cursors_ordered (obj s nb)"
    and run: "split_copy p nb addr s = Return r t"
  shows "cursors_ordered (obj t p) \<and> cursors_ordered (obj t nb)"
proof -
  from run obtain s1 where c: "mbuf_copy nb addr (ptrdiff32 (wpos (obj s p)) addr) s = Return () s1"
    and t: "t = upd p (\<lambda>m. m\<lparr>wpos := addr\<rparr>) s1"
    by (auto simp: split_copy_Return_iff)
  have nb1: "cursors_ordered (obj s1 nb)" using nb c by (rule mbuf_copy_preserves)
  have p1: "cursors_ordered (obj s1 p)" using p c by (rule mbuf_copy_preserves)
  have same: "start (obj s1 p) = start (obj s p) \<and> rpos (obj s1 p) = rpos (obj s p)
      \<and> end_p (obj s1 p) = end_p (obj s p) \<and> wpos (obj s p) \<le> wpos (obj s1 p)"
    using c by (auto simp: mbuf_copy_Return_iff obj_upd obj_cc_memmove split: if_splits)
  show ?thesis
    using nb1 p1 same cut p by (auto simp: t obj_upd cursors_ordered_def)
qed

lemma mbuf_create_Some:
  "cc_alloc (unat (mbuf_chunk_size s)) = Some buf \<Longrightarrow>
     mbuf_create cc_alloc s = Return (Some (buf + unat (mbuf_offset s))) (created buf s)"
  by (simp add: mbuf_create_def created_def Let_def)

lemma mbuf_create_None:
  "cc_alloc (unat (mbuf_chunk_size s)) = None \<Longrightarrow> mbuf_create cc_alloc s = Return None s"
  by (simp add: mbuf_create_def)

lemma mbuf_borrow_recycle:
  "freeq (mbufp s) = q # rest \<Longrightarrow>
     mbuf_borrow cc_alloc s =
       Return (Some q)
         (mbuf_reset q (s\<lparr>mbufp := (mbufp s)\<lparr>freeq := rest, nfree := nfree (mbufp s) - 1\<rparr>\<rparr>))"
  by (simp add: mbuf_borrow_def FREEPOOL_BORROW_def seq_def)

lemma mbuf_borrow_fresh:
  "freeq (mbufp s) = [] \<Longrightarrow> cc_alloc (unat (mbuf_chunk_size s)) = Some buf \<Longrightarrow>
     mbuf_borrow cc_alloc s =
       Return (Some (buf + unat (mbuf_offset s)))
         (mbuf_reset (buf + unat (mbuf_offset s)) (created buf s))"
  by (simp add: mbuf_borrow_def FREEPOOL_BORROW_def seq_def mbuf_create_Some)

lemma mbuf_borrow_fail:
  "freeq (mbufp s) = [] \<Longrightarrow> cc_alloc (unat (mbuf_chunk_size s)) = None \<Longrightarrow>
     mbuf_borrow cc_alloc s = Return None s"
  by (simp add: mbuf_borrow_def FREEPOOL_BORROW_def seq_def mbuf_create_None)

lemma mbuf_borrow_cases:
  obtains (recycle) q rest where "freeq (mbufp s) = q # rest"
      "mbuf_borrow cc_alloc s =
         Return (Some q)
           (mbuf_reset q (s\<lparr>mbufp := (mbufp s)\<lparr>freeq := rest, nfree := nfree (mbufp s) - 1\<rparr>\<rparr>))"
    | (fresh) buf where "freeq (mbufp s) = []" "cc_alloc (unat (mbuf_chunk_size s)) = Some buf"
      "mbuf_borrow cc_alloc s =
         Return (Some (buf + unat (mbuf_offset s)))
           (mbuf_reset (buf + unat (mbuf_offset s)) (created buf s))"
    | (fail) "freeq (mbufp s) = []" "cc_alloc (unat (mbuf_chunk_size s)) = None"
      "mbuf_borrow cc_alloc s = Return None s"
proof (cases "freeq (mbufp s)")
  case Nil
  then show ?thesis
    by (cases "cc_alloc (unat (mbuf_chunk_size s))")
       (auto intro: fresh fail simp: mbuf_borrow_fresh mbuf_borrow_fail)
next
  case (Cons q rest)
  then show ?thesis by (auto intro: recycle simp: mbuf_borrow_recycle)
qed

lemma obj_created:
  "obj (created buf s) q =
     (if q = buf + unat (mbuf_offset s)
      then (obj s q)\<lparr>magic := MBUF_MAGIC, end_p := q, start := buf\<rparr> else obj s q)"
  by (simp add: created_def obj_upd)

lemma mem_created: "mem (created buf s) = mem s"
  by (simp add: created_def mem_upd)

lemma mem_mbuf_reset: "mem (mbuf_reset p s) = mem s"
  by (simp add: mbuf_reset_def mem_upd Let_def)

lemma mbuf_borrow_obj_other:
  assumes "mbuf_borrow cc_alloc s = Return (Some nb) t" and "q \<noteq> nb"
  shows "obj t q = obj s q"
  by (rule mbuf_borrow_cases[where s = s and cc_alloc = cc_alloc])
     (use assms in \<open>auto simp: obj_mbuf_reset obj_created\<close>)

lemma mbuf_borrow_mem:
  assumes "mbuf_borrow cc_alloc s = Return r t"
  shows "mem t = mem s"
  by (rule mbuf_borrow_cases[where s = s and cc_alloc = cc_alloc])
     (use assms in \<open>auto simp: mem_mbuf_reset mem_created\<close>)

lemma mbuf_borrow_None:
  assumes "mbuf_borrow cc_alloc s = Return None t"
  shows "t = s \<and> freeq (mbufp s) = [] \<and> cc_alloc (unat (mbuf_chunk_size s)) = None"
  by (rule mbuf_borrow_cases[where s = s and cc_alloc = cc_alloc]) (use assms in auto)


text \<open>The definitions a concrete run unfolds.\<close>

lemmas run_defs = mbuf_copy_def has_space_def mbuf_full_def mbuf_wsize_def mbuf_rsize_def ASSERT_def seq_def
  cc_memcpy_def cc_memmove_def upd_def ptrdiff32_def mbuf_lshift_def mbuf_rshift_def mbuf_reset_def
  mbuf_copy_bstring_def mbuf_borrow_def FREEPOOL_BORROW_def mbuf_create_def mbuf_split_def
  split_copy_def precopy_def Let_def

subsection \<open>Bytes in memory\<close>

lemma bytes_nth: "i < n \<Longrightarrow> bytes s a n ! i = mem s (a + i)"
  by (simp add: bytes_def)

lemma length_bytes: "length (bytes s a n) = n"
  by (simp add: bytes_def)

lemma bytes_upd: "bytes (upd p f s) a n = bytes s a n"
  by (simp add: bytes_def mem_upd)

lemma bytes_cc_memmove_dst: "bytes (cc_memmove d a n s) d n = bytes s a n"
  by (rule nth_equalityI) (simp_all add: length_bytes bytes_nth cc_memmove_def)

lemma bytes_cc_memmove_outside:
  "a' + k \<le> d \<or> d + n \<le> a' \<Longrightarrow> bytes (cc_memmove d a n s) a' k = bytes s a' k"
  by (rule nth_equalityI) (auto simp: length_bytes bytes_nth cc_memmove_def)

lemma bytes_mbuf_reset: "bytes (mbuf_reset p s) a n = bytes s a n"
  by (simp add: bytes_def mem_mbuf_reset)

lemma word_le_capacity:
  fixes n c :: "32 word"
  assumes "n \<le> c"
  shows "n \<le> ptrdiff32 (a + unat c) a"
  using assms by (simp add: ptrdiff32_def)

lemma bytes_append: "bytes s a m @ bytes s (a + m) k = bytes s a (m + k)"
  by (rule nth_equalityI) (auto simp: length_bytes bytes_nth nth_append)

lemma drop_bytes: "drop k (bytes s a m) = bytes s (a + k) (m - k)"
  by (rule nth_equalityI) (auto simp: length_bytes bytes_nth add.assoc)

lemma bytes_zero: "bytes s a 0 = []"
  by (simp add: bytes_def)

subsection \<open>Borrowing, and the variable \<^verbatim>\<open>mbuf_offset\<close>\<close>

lemma mbuf_borrow_not_Stop: "mbuf_borrow cc_alloc s \<noteq> Stop f t"
  by (rule mbuf_borrow_cases[where s = s and cc_alloc = cc_alloc]) simp_all

lemma ptrdiff32_capacity: "ptrdiff32 (a + unat (c :: 32 word)) a = c"
  by (simp add: ptrdiff32_def)

lemma mbuf_offset_upd: "mbuf_offset (upd p f s) = mbuf_offset s"
  by (simp add: upd_def)

lemma mbuf_offset_mbuf_reset: "mbuf_offset (mbuf_reset p s) = mbuf_offset s"
  by (simp add: mbuf_reset_def Let_def mbuf_offset_upd)

lemma mbuf_offset_created: "mbuf_offset (created buf s) = mbuf_offset s"
  by (simp add: created_def mbuf_offset_upd)

lemma mbuf_offset_cc_memmove: "mbuf_offset (cc_memmove d a n s) = mbuf_offset s"
  by (simp add: cc_memmove_def)

subsection \<open>Who writes \<^verbatim>\<open>mbuf_offset\<close>\<close>

lemma mbuf_copy_offset: "mbuf_copy p addr n s = Return u t \<Longrightarrow> mbuf_offset t = mbuf_offset s"
  by (auto simp: mbuf_copy_Return_iff mbuf_offset_upd mbuf_offset_cc_memmove split: if_splits)

lemma mbuf_lshift_offset: "mbuf_lshift p s = Return u t \<Longrightarrow> mbuf_offset t = mbuf_offset s"
  by (auto simp: mbuf_lshift_Return_iff mbuf_offset_upd mbuf_offset_cc_memmove)

lemma mbuf_rshift_offset: "mbuf_rshift p s = Return u t \<Longrightarrow> mbuf_offset t = mbuf_offset s"
  by (auto simp: mbuf_rshift_Return_iff mbuf_offset_upd mbuf_offset_cc_memmove)

lemma mbuf_create_offset: "mbuf_create cc_alloc s = Return r t \<Longrightarrow> mbuf_offset t = mbuf_offset s"
  by (cases "cc_alloc (unat (mbuf_chunk_size s))")
     (auto simp: mbuf_create_Some mbuf_create_None mbuf_offset_created)

lemma mbuf_borrow_offset: "mbuf_borrow cc_alloc s = Return r t \<Longrightarrow> mbuf_offset t = mbuf_offset s"
  by (rule mbuf_borrow_cases[where s = s and cc_alloc = cc_alloc])
     (auto simp: mbuf_offset_mbuf_reset mbuf_offset_created)

lemma split_copy_offset: "split_copy p nb addr s = Return r t \<Longrightarrow> mbuf_offset t = mbuf_offset s"
  by (auto simp: split_copy_Return_iff mbuf_offset_upd dest: mbuf_copy_offset)

lemma mbuf_split_offset:
  assumes "mbuf_split cc_alloc p addr cb cbarg s = Return r t"
    and cb: "\<And>nbuf s t. precopy cb nbuf cbarg s = Return () t \<Longrightarrow> mbuf_offset t = mbuf_offset s"
  shows "mbuf_offset t = mbuf_offset s"
proof -
  from assms(1) obtain r1 s1 where b: "mbuf_borrow cc_alloc s = Return r1 s1"
    and k: "(case r1 of None \<Rightarrow> Return None s1
             | Some nbuf \<Rightarrow> seq (precopy cb nbuf cbarg s1) (\<lambda>_ s2. split_copy p nbuf addr s2))
            = Return r t"
    by (auto simp: mbuf_split_def seq_Return_iff)
  have o1: "mbuf_offset s1 = mbuf_offset s" using b by (rule mbuf_borrow_offset)
  show ?thesis
  proof (cases r1)
    case None
    with k o1 show ?thesis by simp
  next
    case (Some nbuf)
    with k obtain s2 where pre: "precopy cb nbuf cbarg s1 = Return () s2"
      and sc: "split_copy p nbuf addr s2 = Return r t"
      by (auto simp: seq_Return_iff)
    from cb[OF pre] split_copy_offset[OF sc] o1 show ?thesis by simp
  qed
qed

lemma exec_offset:
  assumes "exec c s = Return u t" and "cb_keeps_offset c"
  shows "mbuf_offset t = mbuf_offset s"
proof (cases c)
  case (Split cc_alloc p addr cb cbarg)
  with assms(1) obtain r where "mbuf_split cc_alloc p addr cb cbarg s = Return r t"
    by (auto simp: seq_Return_iff)
  moreover from assms(2) Split
  have "\<And>nbuf s t. precopy cb nbuf cbarg s = Return () t \<Longrightarrow> mbuf_offset t = mbuf_offset s"
    by simp
  ultimately show ?thesis by (rule mbuf_split_offset)
qed (use assms(1) in \<open>auto simp: seq_Return_iff mbuf_offset_mbuf_reset mbuf_copy_bstring_def
      mbuf_rsize_Return_iff mbuf_wsize_Return_iff mbuf_teardown_def
      dest: mbuf_create_offset mbuf_lshift_offset mbuf_rshift_offset mbuf_copy_offset
        mbuf_borrow_offset\<close>)

lemma run_offset:
  "run cs s = Return u t \<Longrightarrow> \<forall>c \<in> set cs. cb_keeps_offset c \<Longrightarrow> mbuf_offset t = mbuf_offset s"
proof (induction cs arbitrary: s)
  case Nil
  then show ?case by simp
next
  case (Cons c cs)
  from Cons.prems(1) obtain s1 where e: "exec c s = Return () s1" and r: "run cs s1 = Return u t"
    by (auto simp: seq_Return_iff)
  from exec_offset[OF e] Cons.prems(2) have "mbuf_offset s1 = mbuf_offset s" by simp
  moreover from Cons.IH[OF r] Cons.prems(2) have "mbuf_offset t = mbuf_offset s1" by simp
  ultimately show ?case by simp
qed

lemma mbuf_setup_Return_iff:
  "mbuf_setup hdr_size chunk_size s = Return u t \<longleftrightarrow>
     t = s\<lparr>mbuf_chunk_size := chunk_size,
           mbuf_offset := word_of_int (uint chunk_size - int hdr_size)\<rparr> \<and>
     0 < (word_of_int (uint chunk_size - int hdr_size) :: 32 word) \<and>
     (word_of_int (uint chunk_size - int hdr_size) :: 32 word) < chunk_size"
  by (auto simp: mbuf_setup_def Let_def ASSERT_Return_iff)

lemma setup_offset_exact:
  fixes chunk_size :: "32 word"
  assumes h: "hdr_size < 2 ^ 32"
    and nz: "0 < (word_of_int (uint chunk_size - int hdr_size) :: 32 word)"
    and lt: "(word_of_int (uint chunk_size - int hdr_size) :: 32 word) < chunk_size"
  shows "hdr_size < unat chunk_size \<and>
         unat (word_of_int (uint chunk_size - int hdr_size) :: 32 word) = unat chunk_size - hdr_size"
proof -
  let ?k = "uint chunk_size - int hdr_size"
  let ?M = "4294967296 :: int"
  have u: "uint (word_of_int ?k :: 32 word) = ?k mod ?M"
    by (simp only: uint_word_of_int) simp
  have c: "uint chunk_size < ?M" "0 \<le> uint chunk_size"
    using uint_lt2p[of chunk_size] by simp_all
  have cn: "uint chunk_size = int (unat chunk_size)"
    by (simp only: of_nat_unat)
  from lt have m: "?k mod ?M < uint chunk_size"
    by (simp only: word_less_def u)
  have hi: "int hdr_size < ?M" using h by simp
  have pos: "0 \<le> ?k"
  proof (rule ccontr)
    assume "\<not> 0 \<le> ?k"
    then have neg: "?k < 0" by simp
    have "?k mod ?M = (?k + ?M) mod ?M" by simp
    also have "\<dots> = ?k + ?M"
    proof (rule mod_pos_pos_trivial)
      show "0 \<le> ?k + ?M" using hi c by linarith
      show "?k + ?M < ?M" using neg by linarith
    qed
    finally have "?k mod ?M = ?k + ?M" .
    with m hi show False by linarith
  qed
  have small: "?k mod ?M = ?k"
  proof (rule mod_pos_pos_trivial)
    show "0 \<le> ?k" by (rule pos)
    show "?k < ?M" using c by linarith
  qed
  have le: "hdr_size \<le> unat chunk_size" using pos cn by linarith
  have "int (unat (word_of_int ?k :: 32 word)) = ?k"
    using u small by (simp only: of_nat_unat)
  also have "?k = int (unat chunk_size - hdr_size)"
    using le cn by (simp only: of_nat_diff)
  finally have v: "unat (word_of_int ?k :: 32 word) = unat chunk_size - hdr_size"
    by (simp only: of_nat_eq_iff)
  have "hdr_size \<noteq> unat chunk_size"
  proof
    assume "hdr_size = unat chunk_size"
    then have "?k = 0" using cn by linarith
    with nz show False by simp
  qed
  with le v show ?thesis by simp
qed

subsection \<open>The overlap assertion of \<^verbatim>\<open>mbuf_copy\<close>\<close>

text \<open>A copy of at least one byte whose first source byte lies in the body never returns.\<close>

lemma mbuf_copy_from_inside_stops:
  assumes "n \<noteq> 0" and "start (obj s p) \<le> addr" and "addr < end_p (obj s p)"
  shows "mbuf_copy p addr n s = Stop Assertion_failed s"
  using assms
  by (simp add: mbuf_copy_def has_space_def mbuf_full_def mbuf_wsize_def ASSERT_def seq_def)

subsection \<open>The chunk of a created buffer\<close>

text \<open>
  After \<^verbatim>\<open>mbuf_setup\<close> with header size \<open>hdr_size\<close>, a buffer that \<^verbatim>\<open>mbuf_create\<close> makes has
  its header at its \<open>end\<close>, a body of \<^verbatim>\<open>mbuf_capacity()\<close> bytes, and a chunk that is the body
  followed by the \<open>hdr_size\<close> bytes of the header.
\<close>

lemma setup_create_layout:
  assumes init: "mbuf_setup hdr_size chunk_size s = Return () s1"
    and hdr: "hdr_size < 2 ^ 32"
    and cr: "mbuf_create cc_alloc s1 = Return (Some p) t"
  shows "end_p (obj t p) = p \<and>
         end_p (obj t p) = start (obj t p) + unat (mbuf_capacity t) \<and>
         unat (mbuf_chunk_size t) = unat (mbuf_capacity t) + hdr_size"
proof -
  let ?off = "word_of_int (uint chunk_size - int hdr_size) :: 32 word"
  from init have s1: "mbuf_offset s1 = ?off" "mbuf_chunk_size s1 = chunk_size"
    and nz: "0 < ?off" and lt: "?off < chunk_size"
    by (simp_all add: mbuf_setup_Return_iff)
  from setup_offset_exact[OF hdr nz lt]
  have size: "unat chunk_size = unat (mbuf_offset s1) + hdr_size"
    by (simp add: s1)
  show ?thesis
  proof (cases "cc_alloc (unat (mbuf_chunk_size s1))")
    case None
    with cr show ?thesis by (simp add: mbuf_create_None)
  next
    case (Some buf)
    with cr have "p = buf + unat (mbuf_offset s1)" and "t = created buf s1"
      by (simp_all add: mbuf_create_Some)
    then show ?thesis
      using size s1(2)
      by (simp add: obj_created mbuf_capacity_def mbuf_offset_created created_def upd_def)
  qed
qed

section \<open>Properties\<close>

text \<open>
  C1. The cursor ordering \<open>start \<le> rpos \<le> wpos \<le> end\<close>. A reset of a buffer whose bounds
  satisfy \<open>start \<le> end\<close> establishes it. Every buffer \<open>q\<close> that is ordered stays ordered
  when \<^verbatim>\<open>mbuf_reset\<close> is applied to a buffer \<open>p\<close> (\<open>q\<close> itself or another one), and when
  \<^verbatim>\<open>mbuf_copy\<close>, \<^verbatim>\<open>mbuf_copy_bstring\<close>, \<^verbatim>\<open>mbuf_lshift\<close> or \<^verbatim>\<open>mbuf_rshift\<close> on \<open>p\<close> returns,
  that is when none of their assertions failed. For \<^verbatim>\<open>mbuf_split\<close> of an ordered buffer \<open>p\<close>
  at a cut point \<open>addr\<close> in \<open>[rpos, wpos]\<close>: when the pool hands out a buffer \<open>nbuf\<close> other
  than \<open>p\<close>, and the callback leaves the header of \<open>p\<close> as it was and the new buffer
  ordered, then after the split both \<open>p\<close> and \<open>nbuf\<close> are ordered.
\<close>

theorem cursor_order_preserved:
  "(start (obj s p) \<le> end_p (obj s p) \<longrightarrow> cursors_ordered (obj (mbuf_reset p s) p)) \<and>
   (cursors_ordered (obj s q) \<longrightarrow>
      cursors_ordered (obj (mbuf_reset p s) q) \<and>
      (\<forall>t. mbuf_copy p src n s = Return () t \<longrightarrow> cursors_ordered (obj t q)) \<and>
      (\<forall>t. mbuf_copy_bstring p bstr s = Return () t \<longrightarrow> cursors_ordered (obj t q)) \<and>
      (\<forall>t. mbuf_lshift p s = Return () t \<longrightarrow> cursors_ordered (obj t q)) \<and>
      (\<forall>t. mbuf_rshift p s = Return () t \<longrightarrow> cursors_ordered (obj t q))) \<and>
   (\<forall>nbuf s1 s2 r t.
      cursors_ordered (obj s p) \<and> rpos (obj s p) \<le> addr \<and> addr \<le> wpos (obj s p) \<and>
      mbuf_borrow cc_alloc s = Return (Some nbuf) s1 \<and> nbuf \<noteq> p \<and>
      precopy cb nbuf cbarg s1 = Return () s2 \<and>
      obj s2 p = obj s1 p \<and> cursors_ordered (obj s2 nbuf) \<and>
      mbuf_split cc_alloc p addr cb cbarg s = Return r t \<longrightarrow>
      cursors_ordered (obj t p) \<and> cursors_ordered (obj t nbuf))"
proof (intro conjI impI allI)
  show "cursors_ordered (obj (mbuf_reset p s) p)" if "start (obj s p) \<le> end_p (obj s p)"
    using that by (rule mbuf_reset_ordered)
next
  assume q: "cursors_ordered (obj s q)"
  show "cursors_ordered (obj (mbuf_reset p s) q)" using q by (rule mbuf_reset_preserves)
  show "cursors_ordered (obj t q)" if "mbuf_copy p src n s = Return () t" for t
    using q that by (rule mbuf_copy_preserves)
  show "cursors_ordered (obj t q)" if "mbuf_copy_bstring p bstr s = Return () t" for t
    using q that unfolding mbuf_copy_bstring_def by (rule mbuf_copy_preserves)
  show "cursors_ordered (obj t q)" if "mbuf_lshift p s = Return () t" for t
    using q that by (rule mbuf_lshift_preserves)
  show "cursors_ordered (obj t q)" if "mbuf_rshift p s = Return () t" for t
    using q that by (rule mbuf_rshift_preserves)
next
  fix nbuf s1 s2 r t
  assume h: "cursors_ordered (obj s p) \<and> rpos (obj s p) \<le> addr \<and> addr \<le> wpos (obj s p) \<and>
      mbuf_borrow cc_alloc s = Return (Some nbuf) s1 \<and> nbuf \<noteq> p \<and>
      precopy cb nbuf cbarg s1 = Return () s2 \<and>
      obj s2 p = obj s1 p \<and> cursors_ordered (obj s2 nbuf) \<and>
      mbuf_split cc_alloc p addr cb cbarg s = Return r t"
  then have borrow: "mbuf_borrow cc_alloc s = Return (Some nbuf) s1"
    and pre: "precopy cb nbuf cbarg s1 = Return () s2" and ne: "p \<noteq> nbuf"
    and kept: "obj s2 p = obj s1 p" and ord: "cursors_ordered (obj s p)"
    and lo: "rpos (obj s p) \<le> addr" and hi: "addr \<le> wpos (obj s p)"
    and nbo: "cursors_ordered (obj s2 nbuf)"
    and split: "mbuf_split cc_alloc p addr cb cbarg s = Return r t" by auto
  have same: "obj s2 p = obj s p"
    using mbuf_borrow_obj_other[OF borrow ne] kept by simp
  have run: "split_copy p nbuf addr s2 = Return r t"
    using split mbuf_split_Return_Some[OF borrow pre, of p addr] by simp
  have both: "cursors_ordered (obj t p) \<and> cursors_ordered (obj t nbuf)"
  proof (rule split_copy_preserves[OF _ _ _ _ run])
    show "cursors_ordered (obj s2 p)" using ord by (simp only: same)
    show "rpos (obj s2 p) \<le> addr" using lo by (simp only: same)
    show "addr \<le> wpos (obj s2 p)" using hi by (simp only: same)
    show "cursors_ordered (obj s2 nbuf)" by (rule nbo)
  qed
  from both show "cursors_ordered (obj t p)" ..
  from both show "cursors_ordered (obj t nbuf)" ..
qed

theorem cursor_order_preserved_witness:
  "cursors_ordered (obj ex_state 116) \<and>
   cursors_ordered (obj (mbuf_reset 116 ex_state) 116) \<and>
   (\<exists>t. mbuf_copy 116 300 3 ex_state = Return () t \<and> cursors_ordered (obj t 116)) \<and>
   (\<exists>t. mbuf_copy_bstring 116 \<lparr>len = 3, data = 300\<rparr> ex_state = Return () t \<and>
        cursors_ordered (obj t 116)) \<and>
   (\<exists>t. mbuf_lshift 116 ex_state = Return () t \<and> cursors_ordered (obj t 116)) \<and>
   (\<exists>t. mbuf_rshift 116 ex_state = Return () t \<and> cursors_ordered (obj t 116)) \<and>
   (\<exists>t. mbuf_split ex_alloc 116 103 (Some ex_cb) 300 ex_state = Return (Some 216) t \<and>
        cursors_ordered (obj t 116) \<and> cursors_ordered (obj t 216))"
proof -
  note inst = cursor_order_preserved[where s = ex_state and p = 116 and q = 116 and src = 300
      and n = 3 and bstr = "\<lparr>len = 3, data = 300\<rparr>" and addr = 103 and cc_alloc = ex_alloc
      and cb = "Some ex_cb" and cbarg = 300]
  have ord: "cursors_ordered (obj ex_state 116)"
    by (simp add: cursors_ordered_def ex_state_def)
  have bnd: "start (obj ex_state 116) \<le> end_p (obj ex_state 116)"
    by (simp add: ex_state_def)
  have reset: "cursors_ordered (obj (mbuf_reset 116 ex_state) 116)"
    using inst bnd by blast
  have c: "\<exists>t. mbuf_copy 116 300 3 ex_state = Return () t"
    by (simp add: run_defs ex_state_def)
  then obtain t1 where t1: "mbuf_copy 116 300 3 ex_state = Return () t1" by blast
  obtain t2 where t2: "mbuf_copy_bstring 116 \<lparr>len = 3, data = 300\<rparr> ex_state = Return () t2"
    using c by (auto simp: mbuf_copy_bstring_def)
  have "\<exists>t. mbuf_lshift 116 ex_state = Return () t"
    by (simp add: run_defs ex_state_def)
  then obtain t3 where t3: "mbuf_lshift 116 ex_state = Return () t3" by blast
  have "\<exists>t. mbuf_rshift 116 ex_state = Return () t"
    by (simp add: run_defs ex_state_def)
  then obtain t4 where t4: "mbuf_rshift 116 ex_state = Return () t4" by blast
  have o1: "cursors_ordered (obj t1 116)" using inst ord t1 by blast
  have o2: "cursors_ordered (obj t2 116)" using inst ord t2 by blast
  have o3: "cursors_ordered (obj t3 116)" using inst ord t3 by blast
  have o4: "cursors_ordered (obj t4 116)" using inst ord t4 by blast
  define s1 where "s1 = mbuf_reset 216 (created 200 ex_state)"
  have borrow: "mbuf_borrow ex_alloc ex_state = Return (Some 216) s1"
    using mbuf_borrow_fresh[of ex_state ex_alloc 200]
    by (simp add: s1_def ex_state_def ex_alloc_def)
  have "\<exists>s2. precopy (Some ex_cb) 216 300 s1 = Return () s2 \<and> obj s2 116 = obj s1 116 \<and>
          cursors_ordered (obj s2 216)"
    by (simp add: s1_def created_def run_defs ex_state_def ex_cb_def blank_def cursors_ordered_def)
  then obtain s2 where pre: "precopy (Some ex_cb) 216 300 s1 = Return () s2"
    and kept: "obj s2 116 = obj s1 116" and nbo: "cursors_ordered (obj s2 216)" by blast
  have "\<exists>t. mbuf_split ex_alloc 116 103 (Some ex_cb) 300 ex_state = Return (Some 216) t"
    by (simp add: run_defs ex_state_def ex_alloc_def ex_cb_def blank_def)
  then obtain t5 where
    t5: "mbuf_split ex_alloc 116 103 (Some ex_cb) 300 ex_state = Return (Some 216) t5" by blast
  have cut: "rpos (obj ex_state 116) \<le> 103 \<and> 103 \<le> wpos (obj ex_state 116)"
    by (simp add: ex_state_def)
  have o5: "cursors_ordered (obj t5 116) \<and> cursors_ordered (obj t5 216)"
    using inst[THEN conjunct2, THEN conjunct2, rule_format, of 216 s1 s2 "Some 216" t5]
      ord cut borrow pre kept nbo t5 by simp
  show ?thesis
    using ord reset t1 o1 t2 o2 t3 o3 t4 o4 t5 o5 by blast
qed

text \<open>
  C2. Round trip of \<^verbatim>\<open>mbuf_reset\<close> and \<^verbatim>\<open>mbuf_copy\<close>. Let buffer \<open>p\<close> be laid out as
  \<^verbatim>\<open>mbuf_create\<close> makes it: the header at \<open>end\<close>, a body of \<^verbatim>\<open>mbuf_capacity()\<close> bytes, in a
  chunk that is the body followed by the \<open>hdr_size\<close> bytes of the header. Let
  \<open>n \<le> mbuf_capacity()\<close>, and let the data \<open>[src, src + n)\<close> lie outside the chunk
  \<open>[start, end + hdr_size)\<close>, so neither in the body nor in the header that the reset and
  the copy assign. Then the copy after the reset returns, the readable region
  \<open>[rpos, wpos)\<close> holds exactly the \<open>n\<close> bytes that the data holds when the copy is made,
  which are the bytes it held before the reset, and \<open>wpos - rpos = n\<close>.
\<close>

theorem reset_copy_roundtrip:
  assumes layout: "end_p (obj s p) = p"
    and cap: "end_p (obj s p) = start (obj s p) + unat (mbuf_capacity s)"
    and chunk: "unat (mbuf_chunk_size s) = unat (mbuf_capacity s) + hdr_size"
    and n: "n \<le> mbuf_capacity s"
    and apart: "src + unat n \<le> start (obj s p) \<or> end_p (obj s p) + hdr_size \<le> src"
  shows "\<exists>t. mbuf_copy p src n (mbuf_reset p s) = Return () t \<and>
             bytes t (rpos (obj t p)) (wpos (obj t p) - rpos (obj t p)) =
               bytes (mbuf_reset p s) src (unat n) \<and>
             bytes (mbuf_reset p s) src (unat n) = bytes s src (unat n) \<and>
             wpos (obj t p) - rpos (obj t p) = unat n"
proof (cases "n = 0")
  case True
  then show ?thesis
    by (simp add: mbuf_copy_Return_iff obj_mbuf_reset bytes_zero)
next
  case False
  let ?r = "mbuf_reset p s"
  let ?st = "start (obj s p)"
  let ?t = "upd p (\<lambda>m. m\<lparr>wpos := wpos m + unat n\<rparr>) (cc_memmove ?st src (unat n) ?r)"
  have pos: "0 < unat n" using False by (simp add: unat_gt_0)
  have le: "unat n \<le> unat (mbuf_capacity s)" using n by (simp add: word_le_nat_alt)
  have fits: "n \<le> ptrdiff32 (end_p (obj ?r p)) (wpos (obj ?r p))"
    using n by (simp add: obj_mbuf_reset cap word_le_capacity)
  have outside: "src + unat n \<le> ?st \<or> end_p (obj s p) \<le> src"
    using apart by linarith
  have run: "mbuf_copy p src n ?r = Return () ?t"
    using False pos le fits outside cap
    by (auto simp: mbuf_copy_Return_iff obj_mbuf_reset)
  have "bytes ?t ?st (unat n) = bytes ?r src (unat n)"
    by (simp add: bytes_upd bytes_cc_memmove_dst)
  then show ?thesis
    using run by (simp add: obj_upd obj_cc_memmove obj_mbuf_reset bytes_mbuf_reset)
qed

theorem reset_copy_roundtrip_witness:
  "end_p (obj ex_state 116) = 116 \<and>
   unat (mbuf_chunk_size ex_state) = unat (mbuf_capacity ex_state) + 48 \<and>
   end_p (obj ex_state 116) + 48 \<le> 300 \<and>
   (\<exists>t. mbuf_copy 116 300 3 (mbuf_reset 116 ex_state) = Return () t \<and>
        bytes t (rpos (obj t 116)) (wpos (obj t 116) - rpos (obj t 116)) = [44, 45, 46] \<and>
        bytes (mbuf_reset 116 ex_state) 300 3 = [44, 45, 46] \<and>
        wpos (obj t 116) - rpos (obj t 116) = 3)"
proof -
  have layout: "end_p (obj ex_state 116) = 116"
    by (simp add: ex_state_def)
  have cap: "end_p (obj ex_state 116) = start (obj ex_state 116) + unat (mbuf_capacity ex_state)"
    by (simp add: ex_state_def mbuf_capacity_def)
  have chunk: "unat (mbuf_chunk_size ex_state) = unat (mbuf_capacity ex_state) + 48"
    by (simp add: ex_state_def mbuf_capacity_def)
  have n: "(3 :: 32 word) \<le> mbuf_capacity ex_state"
    by (simp add: ex_state_def mbuf_capacity_def)
  have apart: "300 + unat (3 :: 32 word) \<le> start (obj ex_state 116) \<or>
               end_p (obj ex_state 116) + 48 \<le> 300"
    by (simp add: ex_state_def)
  have b: "bytes ex_state 300 (unat (3 :: 32 word)) = [44, 45, 46]"
    by (simp add: bytes_def ex_state_def upt_rec)
  from reset_copy_roundtrip[OF layout cap chunk n apart] b
  have "\<exists>t. mbuf_copy 116 300 3 (mbuf_reset 116 ex_state) = Return () t \<and>
        bytes t (rpos (obj t 116)) (wpos (obj t 116) - rpos (obj t 116)) = [44, 45, 46] \<and>
        bytes (mbuf_reset 116 ex_state) 300 3 = [44, 45, 46] \<and>
        wpos (obj t 116) - rpos (obj t 116) = 3"
    by auto
  moreover have "end_p (obj ex_state 116) + 48 \<le> 300"
    by (simp add: ex_state_def)
  ultimately show ?thesis using layout chunk by blast
qed

text \<open>
  C3. \<^verbatim>\<open>mbuf_split\<close> keeps the readable bytes. Let \<open>p\<close> be a buffer with ordered cursors and
  a body below \<open>2 ^ 32\<close> bytes, and \<open>addr\<close> a cut point in \<open>[rpos, wpos]\<close>. Let the pool hand
  out a buffer \<open>nbuf\<close> other than \<open>p\<close> whose body lies apart from the body of \<open>p\<close>, and let
  the callback leave the header and the readable bytes of \<open>p\<close> as they were and the new
  buffer ordered. When the split returns, it returns \<open>nbuf\<close>, \<open>wpos\<close> of \<open>p\<close> is \<open>addr\<close>, and
  the readable bytes of \<open>p\<close> followed by the readable bytes of \<open>nbuf\<close> without those the
  callback wrote are the bytes that \<open>[rpos, wpos)\<close> of \<open>p\<close> held before the call.
\<close>

theorem split_reassembles:
  assumes ord: "cursors_ordered (obj s p)"
    and cap: "end_p (obj s p) - start (obj s p) < 2 ^ 32"
    and lo: "rpos (obj s p) \<le> addr" and hi: "addr \<le> wpos (obj s p)"
    and borrow: "mbuf_borrow cc_alloc s = Return (Some nbuf) s1"
    and ne: "p \<noteq> nbuf"
    and pre: "precopy cb nbuf cbarg s1 = Return () s2"
    and kept: "obj s2 p = obj s1 p"
    and kept_bytes: "bytes s2 (rpos (obj s p)) (wpos (obj s p) - rpos (obj s p)) =
                     bytes s1 (rpos (obj s p)) (wpos (obj s p) - rpos (obj s p))"
    and nbo: "cursors_ordered (obj s2 nbuf)"
    and apart: "end_p (obj s2 nbuf) \<le> start (obj s p) \<or> end_p (obj s p) \<le> start (obj s2 nbuf)"
    and split: "mbuf_split cc_alloc p addr cb cbarg s = Return r t"
  shows "r = Some nbuf \<and> wpos (obj t p) = addr \<and>
         bytes t (rpos (obj t p)) (wpos (obj t p) - rpos (obj t p)) @
         drop (wpos (obj s2 nbuf) - rpos (obj s2 nbuf))
           (bytes t (rpos (obj t nbuf)) (wpos (obj t nbuf) - rpos (obj t nbuf))) =
         bytes s (rpos (obj s p)) (wpos (obj s p) - rpos (obj s p))"
proof -
  let ?R = "rpos (obj s p)" and ?W = "wpos (obj s p)"
  let ?r2 = "rpos (obj s2 nbuf)" and ?w2 = "wpos (obj s2 nbuf)"
  let ?sz = "ptrdiff32 ?W addr"
  let ?n = "?W - addr"
  have same: "obj s2 p = obj s p"
    using mbuf_borrow_obj_other[OF borrow ne] kept by simp
  have old: "bytes s2 ?R (?W - ?R) = bytes s ?R (?W - ?R)"
    using kept_bytes mbuf_borrow_mem[OF borrow] by (simp add: bytes_def)
  from ord have o: "start (obj s p) \<le> ?R" "?R \<le> ?W" "?W \<le> end_p (obj s p)"
    by (simp_all add: cursors_ordered_def)
  from nbo have o2: "start (obj s2 nbuf) \<le> ?r2" "?r2 \<le> ?w2" "?w2 \<le> end_p (obj s2 nbuf)"
    by (simp_all add: cursors_ordered_def)
  have "?n < 2 ^ 32" using o cap lo hi by linarith
  with hi have n: "unat ?sz = ?n" by (rule ptrdiff32_exact)
  have run: "split_copy p nbuf addr s2 = Return r t"
    using split mbuf_split_Return_Some[OF borrow pre, of p addr] by simp
  then obtain s3 where r: "r = Some nbuf"
    and copy: "mbuf_copy nbuf addr ?sz s2 = Return () s3"
    and t: "t = upd p (\<lambda>m. m\<lparr>wpos := addr\<rparr>) s3"
    by (auto simp: split_copy_Return_iff same)
  have whole: "bytes s2 ?R (addr - ?R) @ bytes s2 addr ?n = bytes s ?R (?W - ?R)"
    using bytes_append[of s2 ?R "addr - ?R" ?n] lo hi old by simp
  have parts: "bytes t ?R (addr - ?R) = bytes s2 ?R (addr - ?R) \<and>
      drop (?w2 - ?r2) (bytes t (rpos (obj t nbuf)) (wpos (obj t nbuf) - rpos (obj t nbuf))) =
        bytes s2 addr ?n \<and> obj s3 p = obj s p"
  proof (cases "?sz = 0")
    case True
    with copy have s3: "s3 = s2" by (simp add: mbuf_copy_Return_iff)
    from True n have z: "?n = 0" by simp
    show ?thesis
      using ne by (simp add: t s3 z bytes_upd obj_upd same drop_bytes bytes_zero)
  next
    case False
    with copy have fits: "?sz \<le> ptrdiff32 (end_p (obj s2 nbuf)) ?w2"
      and s3: "s3 = upd nbuf (\<lambda>m. m\<lparr>wpos := wpos m + unat ?sz\<rparr>) (cc_memmove ?w2 addr (unat ?sz) s2)"
      by (simp_all add: mbuf_copy_Return_iff)
    from fits o2(3) have room: "?w2 + ?n \<le> end_p (obj s2 nbuf)"
      using word_le_unat_ptrdiff[of ?sz "end_p (obj s2 nbuf)" ?w2] by (simp add: n)
    have away: "?R + (addr - ?R) \<le> ?w2 \<or> ?w2 + ?n \<le> ?R"
      using apart o o2 room lo hi by linarith
    have first: "bytes t ?R (addr - ?R) = bytes s2 ?R (addr - ?R)"
      using away by (simp add: t s3 bytes_upd n bytes_cc_memmove_outside)
    have nb: "rpos (obj t nbuf) = ?r2 \<and> wpos (obj t nbuf) = ?w2 + ?n"
      using ne by (simp add: t s3 obj_upd obj_cc_memmove n)
    have "drop (?w2 - ?r2) (bytes t ?r2 (?w2 + ?n - ?r2)) = bytes t ?w2 ?n"
      using o2(2) by (simp add: drop_bytes)
    also have "\<dots> = bytes s2 addr ?n"
      by (simp add: t s3 bytes_upd n bytes_cc_memmove_dst)
    finally have second: "drop (?w2 - ?r2) (bytes t ?r2 (?w2 + ?n - ?r2)) = bytes s2 addr ?n" .
    have "obj s3 p = obj s p" using ne by (simp add: s3 obj_upd obj_cc_memmove same)
    with first second nb show ?thesis by simp
  qed
  have tp: "rpos (obj t p) = ?R \<and> wpos (obj t p) = addr"
    using parts by (simp add: t obj_upd)
  show ?thesis
    using r tp parts whole by simp
qed


theorem split_reassembles_witness:
  "\<exists>t. mbuf_split ex_alloc 116 103 (Some ex_cb) 300 ex_state = Return (Some 216) t \<and>
       wpos (obj t 116) = 103 \<and>
       bytes t (rpos (obj t 116)) (wpos (obj t 116) - rpos (obj t 116)) = [102] \<and>
       bytes t (rpos (obj t 216)) (wpos (obj t 216) - rpos (obj t 216)) = [44, 45, 103, 104] \<and>
       bytes t (rpos (obj t 116)) (wpos (obj t 116) - rpos (obj t 116)) @
         drop 2 (bytes t (rpos (obj t 216)) (wpos (obj t 216) - rpos (obj t 216))) =
       [102, 103, 104]"
proof -
  define s1 where "s1 = mbuf_reset 216 (created 200 ex_state)"
  have ord: "cursors_ordered (obj ex_state 116)"
    by (simp add: cursors_ordered_def ex_state_def)
  have cap: "end_p (obj ex_state 116) - start (obj ex_state 116) < 2 ^ 32"
    by (simp add: ex_state_def)
  have lo: "rpos (obj ex_state 116) \<le> 103" and hi: "103 \<le> wpos (obj ex_state 116)"
    by (simp_all add: ex_state_def)
  have borrow: "mbuf_borrow ex_alloc ex_state = Return (Some 216) s1"
    using mbuf_borrow_fresh[of ex_state ex_alloc 200]
    by (simp add: s1_def ex_state_def ex_alloc_def)
  have ne: "(116 :: nat) \<noteq> 216" by simp
  have "\<exists>s2. precopy (Some ex_cb) 216 300 s1 = Return () s2 \<and> obj s2 116 = obj s1 116 \<and>
          bytes s2 (rpos (obj ex_state 116)) (wpos (obj ex_state 116) - rpos (obj ex_state 116)) =
          bytes s1 (rpos (obj ex_state 116)) (wpos (obj ex_state 116) - rpos (obj ex_state 116)) \<and>
          cursors_ordered (obj s2 216) \<and>
          (end_p (obj s2 216) \<le> start (obj ex_state 116) \<or>
           end_p (obj ex_state 116) \<le> start (obj s2 216)) \<and>
          wpos (obj s2 216) - rpos (obj s2 216) = 2"
    by (simp add: s1_def created_def run_defs ex_state_def ex_cb_def blank_def cursors_ordered_def
          bytes_def)
  then obtain s2 where pre: "precopy (Some ex_cb) 216 300 s1 = Return () s2"
    and kept: "obj s2 116 = obj s1 116"
    and kept_bytes:
      "bytes s2 (rpos (obj ex_state 116)) (wpos (obj ex_state 116) - rpos (obj ex_state 116)) =
       bytes s1 (rpos (obj ex_state 116)) (wpos (obj ex_state 116) - rpos (obj ex_state 116))"
    and nbo: "cursors_ordered (obj s2 216)"
    and apart: "end_p (obj s2 216) \<le> start (obj ex_state 116) \<or>
                end_p (obj ex_state 116) \<le> start (obj s2 216)"
    and skip: "wpos (obj s2 216) - rpos (obj s2 216) = 2" by blast
  have "\<exists>t. mbuf_split ex_alloc 116 103 (Some ex_cb) 300 ex_state = Return (Some 216) t \<and>
          bytes t (rpos (obj t 116)) (wpos (obj t 116) - rpos (obj t 116)) = [102] \<and>
          bytes t (rpos (obj t 216)) (wpos (obj t 216) - rpos (obj t 216)) = [44, 45, 103, 104]"
    by (simp add: run_defs ex_state_def ex_alloc_def ex_cb_def blank_def bytes_def upt_rec)
  then obtain t where
    split: "mbuf_split ex_alloc 116 103 (Some ex_cb) 300 ex_state = Return (Some 216) t"
    and b1: "bytes t (rpos (obj t 116)) (wpos (obj t 116) - rpos (obj t 116)) = [102]"
    and b2: "bytes t (rpos (obj t 216)) (wpos (obj t 216) - rpos (obj t 216)) = [44, 45, 103, 104]"
    by blast
  have whole: "bytes ex_state (rpos (obj ex_state 116))
      (wpos (obj ex_state 116) - rpos (obj ex_state 116)) = [102, 103, 104]"
    by (simp add: ex_state_def bytes_def upt_rec)
  note joined = split_reassembles[OF ord cap lo hi borrow ne pre kept kept_bytes nbo apart split]
  from joined have w: "wpos (obj t 116) = 103" by simp
  from joined[unfolded skip whole] have "bytes t (rpos (obj t 116)) (wpos (obj t 116) - rpos (obj t 116)) @
         drop 2 (bytes t (rpos (obj t 216)) (wpos (obj t 216) - rpos (obj t 216))) =
       [102, 103, 104]"
    by blast
  with split w b1 b2 show ?thesis by blast
qed

text \<open>
  C4. A source range that runs into the buffer. In the example state the body of the buffer
  is \<open>[100, 116)\<close> and \<open>wpos = 105\<close>; the two source bytes \<open>[99, 101)\<close> overlap the body. The
  assertion of \<^verbatim>\<open>mbuf_copy\<close> looks at the first source byte only (\<^verbatim>\<open>addr < start\<close> holds), so
  the call returns with the two bytes copied and \<open>wpos\<close> advanced: no assertion fails.
\<close>

theorem copy_overlap_not_asserted:
  "start (obj ex_state 116) < 99 + unat (2 :: 32 word) \<and> 99 < end_p (obj ex_state 116) \<and>
   (\<exists>t. mbuf_copy 116 99 2 ex_state = Return () t \<and> wpos (obj t 116) = 107 \<and>
        bytes t 105 2 = [99, 100])"
  by (simp add: run_defs ex_state_def bytes_def upt_rec)

text \<open>
  C5. A copy that does not fit. When \<^verbatim>\<open>mbuf_wsize\<close> returns \<open>w\<close> and \<open>n > w\<close>, the call
  \<^verbatim>\<open>mbuf_copy(mbuf, src, n)\<close> stops at a failed assertion, and the state in which it stops
  is the state it was called in: no cursor has moved and no byte was written.
\<close>

theorem copy_too_large_stops:
  assumes "mbuf_wsize p s = Return w s'" and "w < n"
  shows "mbuf_copy p src n s = Stop Assertion_failed s"
proof -
  from assms(1) have w: "w = ptrdiff32 (end_p (obj s p)) (wpos (obj s p))"
    and le: "wpos (obj s p) \<le> end_p (obj s p)"
    by (simp_all add: mbuf_wsize_Return_iff)
  have "n \<noteq> 0" using assms(2) by auto
  moreover have "\<not> n \<le> ptrdiff32 (end_p (obj s p)) (wpos (obj s p))"
    using assms(2) w by (simp add: not_le)
  ultimately show ?thesis
    using le by (simp add: mbuf_copy_def has_space_def mbuf_full_def mbuf_wsize_def ASSERT_def seq_def)
qed

theorem copy_too_large_stops_witness:
  "mbuf_wsize 116 ex_state = Return 11 ex_state \<and>
   mbuf_copy 116 300 12 ex_state = Stop Assertion_failed ex_state"
proof -
  have w: "mbuf_wsize 116 ex_state = Return 11 ex_state"
    by (simp add: mbuf_wsize_def ASSERT_def seq_def ptrdiff32_def ex_state_def)
  have "(11 :: 32 word) < 12" by simp
  with w show ?thesis using copy_too_large_stops[of 116 ex_state 11 ex_state 12 300] by simp
qed

text \<open>
  C6. \<^verbatim>\<open>mbuf_lshift\<close>. For a buffer with ordered cursors whose body is shorter than
  \<open>2 ^ 32\<close> bytes (the capacity is a \<^verbatim>\<open>uint32_t\<close>), the call returns; afterwards
  \<open>rpos = start\<close> and \<open>wpos = start + size\<close> with \<open>size = wpos - rpos\<close> before the call, the
  bytes of \<open>[start, start + size)\<close> are the bytes \<open>[rpos, wpos)\<close> held before, in the same
  order, overlapping or not, and \<^verbatim>\<open>mbuf_rsize\<close> returns the same value before and after.
\<close>

theorem lshift_moves_readable_bytes:
  assumes ord: "cursors_ordered (obj s p)"
    and cap: "end_p (obj s p) - start (obj s p) < 2 ^ 32"
  shows "\<exists>t. mbuf_lshift p s = Return () t \<and>
             rpos (obj t p) = start (obj s p) \<and>
             wpos (obj t p) = start (obj s p) + (wpos (obj s p) - rpos (obj s p)) \<and>
             bytes t (start (obj s p)) (wpos (obj s p) - rpos (obj s p)) =
               bytes s (rpos (obj s p)) (wpos (obj s p) - rpos (obj s p)) \<and>
             (\<exists>sz. mbuf_rsize p s = Return sz s \<and> mbuf_rsize p t = Return sz t)"
proof -
  let ?n = "wpos (obj s p) - rpos (obj s p)"
  let ?sz = "ptrdiff32 (wpos (obj s p)) (rpos (obj s p))"
  let ?t = "upd p (\<lambda>m. m\<lparr>wpos := start m + unat ?sz\<rparr>)
             (upd p (\<lambda>m. m\<lparr>rpos := start m\<rparr>)
                (cc_memmove (start (obj s p)) (rpos (obj s p)) (unat ?sz) s))"
  from ord have le: "rpos (obj s p) \<le> wpos (obj s p)" by (simp add: cursors_ordered_def)
  from ord cap have "?n < 2 ^ 32" unfolding cursors_ordered_def by linarith
  with le have sz: "unat ?sz = ?n" by (rule ptrdiff32_exact)
  have run: "mbuf_lshift p s = Return () ?t" using le by (simp add: mbuf_lshift_Return_iff)
  have moved: "bytes ?t (start (obj s p)) ?n = bytes s (rpos (obj s p)) ?n"
    by (simp add: bytes_upd sz bytes_cc_memmove_dst)
  have size: "mbuf_rsize p s = Return ?sz s \<and> mbuf_rsize p ?t = Return ?sz ?t"
    using le by (simp add: mbuf_rsize_Return_iff obj_upd obj_cc_memmove sz ptrdiff32_def)
  show ?thesis
    using run moved size by (simp add: obj_upd obj_cc_memmove sz)
qed

theorem lshift_moves_readable_bytes_witness:
  "\<exists>t. mbuf_lshift 116 ex_state = Return () t \<and> rpos (obj t 116) = 100 \<and> wpos (obj t 116) = 103 \<and>
       bytes t 100 3 = [102, 103, 104] \<and> bytes ex_state 102 3 = [102, 103, 104] \<and>
       mbuf_rsize 116 ex_state = Return 3 ex_state \<and> mbuf_rsize 116 t = Return 3 t"
proof -
  have ord: "cursors_ordered (obj ex_state 116)"
    by (simp add: cursors_ordered_def ex_state_def)
  have cap: "end_p (obj ex_state 116) - start (obj ex_state 116) < 2 ^ 32"
    by (simp add: ex_state_def)
  have b: "bytes ex_state 102 3 = [102, 103, 104]"
    by (simp add: bytes_def ex_state_def upt_rec)
  have r: "mbuf_rsize 116 ex_state = Return 3 ex_state"
    by (simp add: mbuf_rsize_def ASSERT_def seq_def ptrdiff32_def ex_state_def)
  have v: "rpos (obj ex_state 116) = 102 \<and> wpos (obj ex_state 116) = 105 \<and> start (obj ex_state 116) = 100"
    by (simp add: ex_state_def)
  show ?thesis
    using lshift_moves_readable_bytes[OF ord cap] b r v by auto
qed

text \<open>
  C7. \<^verbatim>\<open>mbuf_borrow\<close>. Let every buffer in the free list have a body of \<^verbatim>\<open>mbuf_capacity()\<close>
  bytes (the pool is homogeneous). A buffer that \<^verbatim>\<open>mbuf_borrow\<close> returns, recycled or
  freshly created, has been reset: \<open>rpos = wpos = start\<close>, \<^verbatim>\<open>mbuf_rsize\<close> returns 0 and
  \<^verbatim>\<open>mbuf_wsize\<close> returns \<^verbatim>\<open>mbuf_capacity()\<close>. With an empty free list and a failed allocation
  \<^verbatim>\<open>mbuf_borrow\<close> returns \<^verbatim>\<open>NULL\<close> in the unchanged state, and it never stops the program.
\<close>

theorem borrow_returns_reset_buffer:
  "((\<forall>q \<in> set (freeq (mbufp s)). end_p (obj s q) = start (obj s q) + unat (mbuf_capacity s)) \<longrightarrow>
    mbuf_borrow cc_alloc s = Return (Some p) t \<longrightarrow>
      rpos (obj t p) = start (obj t p) \<and> wpos (obj t p) = start (obj t p) \<and>
      mbuf_rsize p t = Return 0 t \<and> mbuf_wsize p t = Return (mbuf_capacity t) t) \<and>
   (freeq (mbufp s) = [] \<longrightarrow> cc_alloc (unat (mbuf_chunk_size s)) = None \<longrightarrow>
      mbuf_borrow cc_alloc s = Return None s) \<and>
   mbuf_borrow cc_alloc s \<noteq> Stop f t'"
proof (intro conjI impI)
  assume pool: "\<forall>q \<in> set (freeq (mbufp s)). end_p (obj s q) = start (obj s q) + unat (mbuf_capacity s)"
    and run: "mbuf_borrow cc_alloc s = Return (Some p) t"
  have body: "end_p (obj t p) = start (obj t p) + unat (mbuf_capacity t)
      \<and> rpos (obj t p) = start (obj t p) \<and> wpos (obj t p) = start (obj t p)"
  proof (rule mbuf_borrow_cases[where s = s and cc_alloc = cc_alloc])
    fix q rest
    assume "freeq (mbufp s) = q # rest"
      and "mbuf_borrow cc_alloc s = Return (Some q)
         (mbuf_reset q (s\<lparr>mbufp := (mbufp s)\<lparr>freeq := rest, nfree := nfree (mbufp s) - 1\<rparr>\<rparr>))"
    with run pool show ?thesis
      by (auto simp: obj_mbuf_reset mbuf_capacity_def mbuf_offset_mbuf_reset)
  next
    fix buf
    assume "mbuf_borrow cc_alloc s = Return (Some (buf + unat (mbuf_offset s)))
           (mbuf_reset (buf + unat (mbuf_offset s)) (created buf s))"
    with run show ?thesis
      by (auto simp: obj_mbuf_reset obj_created mbuf_capacity_def mbuf_offset_mbuf_reset
            mbuf_offset_created)
  next
    assume "mbuf_borrow cc_alloc s = Return None s"
    with run show ?thesis by simp
  qed
  from body show "rpos (obj t p) = start (obj t p)" by simp
  from body show "wpos (obj t p) = start (obj t p)" by simp
  from body show "mbuf_rsize p t = Return 0 t"
    by (simp add: mbuf_rsize_Return_iff ptrdiff32_def)
  from body show "mbuf_wsize p t = Return (mbuf_capacity t) t"
    by (simp add: mbuf_wsize_Return_iff ptrdiff32_capacity)
next
  show "mbuf_borrow cc_alloc s = Return None s"
    if "freeq (mbufp s) = []" and "cc_alloc (unat (mbuf_chunk_size s)) = None"
    using that by (rule mbuf_borrow_fail)
next
  show "mbuf_borrow cc_alloc s \<noteq> Stop f t'" by (rule mbuf_borrow_not_Stop)
qed

theorem borrow_returns_reset_buffer_witness:
  "(\<exists>t. mbuf_borrow ex_alloc pooled_state = Return (Some 116) t \<and>
        rpos (obj t 116) = 100 \<and> wpos (obj t 116) = 100 \<and>
        mbuf_rsize 116 t = Return 0 t \<and> mbuf_wsize 116 t = Return 16 t) \<and>
   (\<exists>t. mbuf_borrow ex_alloc ex_state = Return (Some 216) t \<and>
        rpos (obj t 216) = 200 \<and> wpos (obj t 216) = 200 \<and>
        mbuf_rsize 216 t = Return 0 t \<and> mbuf_wsize 216 t = Return 16 t) \<and>
   mbuf_borrow failing_alloc ex_state = Return None ex_state"
proof -
  have pool: "\<forall>q \<in> set (freeq (mbufp pooled_state)).
      end_p (obj pooled_state q) = start (obj pooled_state q) + unat (mbuf_capacity pooled_state)"
    by (simp add: pooled_state_def ex_state_def mbuf_capacity_def)
  have "\<exists>t. mbuf_borrow ex_alloc pooled_state = Return (Some 116) t \<and> start (obj t 116) = 100 \<and>
          mbuf_capacity t = 16"
    by (simp add: run_defs pooled_state_def ex_state_def mbuf_capacity_def)
  then obtain t1 where t1: "mbuf_borrow ex_alloc pooled_state = Return (Some 116) t1"
    and v1: "start (obj t1 116) = 100" "mbuf_capacity t1 = 16" by blast
  have r1: "rpos (obj t1 116) = 100 \<and> wpos (obj t1 116) = 100 \<and>
      mbuf_rsize 116 t1 = Return 0 t1 \<and> mbuf_wsize 116 t1 = Return 16 t1"
    using borrow_returns_reset_buffer[where s = pooled_state and cc_alloc = ex_alloc and p = 116
        and t = t1] pool t1 v1 by simp
  have empty: "freeq (mbufp ex_state) = []" by (simp add: ex_state_def)
  have pool2: "\<forall>q \<in> set (freeq (mbufp ex_state)).
      end_p (obj ex_state q) = start (obj ex_state q) + unat (mbuf_capacity ex_state)"
    by (simp add: empty)
  have "\<exists>t. mbuf_borrow ex_alloc ex_state = Return (Some 216) t \<and> start (obj t 216) = 200 \<and>
          mbuf_capacity t = 16"
    by (simp add: run_defs ex_state_def ex_alloc_def mbuf_capacity_def)
  then obtain t2 where t2: "mbuf_borrow ex_alloc ex_state = Return (Some 216) t2"
    and v2: "start (obj t2 216) = 200" "mbuf_capacity t2 = 16" by blast
  have r2: "rpos (obj t2 216) = 200 \<and> wpos (obj t2 216) = 200 \<and>
      mbuf_rsize 216 t2 = Return 0 t2 \<and> mbuf_wsize 216 t2 = Return 16 t2"
    using borrow_returns_reset_buffer[where s = ex_state and cc_alloc = ex_alloc and p = 216
        and t = t2] pool2 t2 v2 by simp
  have r3: "mbuf_borrow failing_alloc ex_state = Return None ex_state"
    using borrow_returns_reset_buffer[where s = ex_state and cc_alloc = failing_alloc] empty
    by (simp add: failing_alloc_def)
  show ?thesis using t1 r1 t2 r2 r3 by blast
qed

text \<open>
  C8. \<^verbatim>\<open>mbuf_setup\<close> and \<^verbatim>\<open>mbuf_capacity\<close>. Let \<^verbatim>\<open>mbuf_setup(chunk_size)\<close> return (its assertion
  holds), with a header size below \<open>2 ^ 32\<close>. Then the header is smaller than the chunk and
  \<^verbatim>\<open>mbuf_capacity()\<close> is \<open>chunk_size - hdr_size\<close>. After any sequence \<open>cs\<close> of calls other
  than \<^verbatim>\<open>mbuf_setup\<close> that returns (create, reset, the shifts, the copies, borrow, split, the
  size queries, teardown), \<^verbatim>\<open>mbuf_capacity()\<close> is still that value, and every buffer that
  \<^verbatim>\<open>mbuf_create\<close> then makes has \<open>end - start\<close> equal to it.
\<close>

theorem setup_fixes_capacity:
  assumes init: "mbuf_setup hdr_size chunk_size s = Return () s1"
    and hdr: "hdr_size < 2 ^ 32"
    and cbs: "\<forall>c \<in> set cs. cb_keeps_offset c"
    and later: "run cs s1 = Return () s2"
  shows "hdr_size < unat chunk_size \<and>
         unat (mbuf_capacity s1) = unat chunk_size - hdr_size \<and>
         mbuf_capacity s2 = mbuf_capacity s1 \<and>
         (\<forall>cc_alloc p t. mbuf_create cc_alloc s2 = Return (Some p) t \<longrightarrow>
            end_p (obj t p) - start (obj t p) = unat (mbuf_capacity t) \<and>
            mbuf_capacity t = mbuf_capacity s1)"
proof -
  let ?off = "word_of_int (uint chunk_size - int hdr_size) :: 32 word"
  from init have s1: "mbuf_offset s1 = ?off" and nz: "0 < ?off" and lt: "?off < chunk_size"
    by (simp_all add: mbuf_setup_Return_iff)
  from setup_offset_exact[OF hdr nz lt]
  have a: "hdr_size < unat chunk_size" and b: "unat (mbuf_capacity s1) = unat chunk_size - hdr_size"
    by (simp_all add: mbuf_capacity_def s1)
  have c: "mbuf_capacity s2 = mbuf_capacity s1"
    using run_offset[OF later cbs] by (simp add: mbuf_capacity_def)
  have d: "end_p (obj t p) - start (obj t p) = unat (mbuf_capacity t) \<and>
           mbuf_capacity t = mbuf_capacity s1"
    if cr: "mbuf_create cc_alloc s2 = Return (Some p) t" for cc_alloc p t
  proof (cases "cc_alloc (unat (mbuf_chunk_size s2))")
    case None
    with cr show ?thesis by (simp add: mbuf_create_None)
  next
    case (Some buf)
    with cr have "p = buf + unat (mbuf_offset s2)" and "t = created buf s2"
      by (simp_all add: mbuf_create_Some)
    then show ?thesis
      using c by (simp add: obj_created mbuf_capacity_def mbuf_offset_created)
  qed
  from a b c d show ?thesis by blast
qed

theorem setup_fixes_capacity_witness:
  "\<exists>s1 s2 t. mbuf_setup 64 2048 ex_state = Return () s1 \<and> mbuf_capacity s1 = 1984 \<and>
      run ex_calls s1 = Return () s2 \<and> mbuf_capacity s2 = 1984 \<and>
      mbuf_create ex_alloc3 s2 = Return (Some 10984) t \<and>
      end_p (obj t 10984) - start (obj t 10984) = 1984 \<and> mbuf_capacity t = 1984"
proof -
  define s1 where "s1 = ex_state\<lparr>mbuf_chunk_size := 2048, mbuf_offset := 1984\<rparr>"
  have init: "mbuf_setup 64 2048 ex_state = Return () s1"
    by (simp add: mbuf_setup_def ASSERT_def Let_def s1_def)
  have cap1: "mbuf_capacity s1 = 1984" by (simp add: mbuf_capacity_def s1_def)
  have "\<exists>s2. run ex_calls s1 = Return () s2"
    by (simp add: ex_calls_def run_defs mbuf_teardown_def s1_def ex_state_def ex_alloc_def
          ex_alloc2_def ex_cb_def blank_def)
  then obtain s2 where later: "run ex_calls s1 = Return () s2" by blast
  have cbs: "\<forall>c \<in> set ex_calls. cb_keeps_offset c"
    by (auto simp: ex_calls_def precopy_def ex_cb_def dest: mbuf_copy_offset)
  have hdr: "(64 :: nat) < 2 ^ 32" by simp
  note facts = setup_fixes_capacity[OF init hdr cbs later]
  from facts cap1 have cap2: "mbuf_capacity s2 = 1984" by simp
  have cr: "mbuf_create ex_alloc3 s2 = Return (Some 10984) (created 9000 s2)"
    using mbuf_create_Some[of ex_alloc3 s2 9000] cap2
    by (simp add: ex_alloc3_def mbuf_capacity_def)
  from facts cr cap1
  have "end_p (obj (created 9000 s2) 10984) - start (obj (created 9000 s2) 10984) = 1984 \<and>
        mbuf_capacity (created 9000 s2) = 1984" by simp
  with init cap1 later cap2 cr show ?thesis by blast
qed

text \<open>
  C9. \<^verbatim>\<open>mbuf_split\<close> when no buffer is available. When \<^verbatim>\<open>mbuf_borrow\<close> returns \<^verbatim>\<open>NULL\<close>,
  \<^verbatim>\<open>mbuf_split\<close> returns \<^verbatim>\<open>NULL\<close> and the whole state, so every cursor and every byte of the
  buffer, is as before; this holds for every callback, also one that would stop the
  program, since the callback is not called.
\<close>

theorem split_fails_unchanged:
  assumes "mbuf_borrow cc_alloc s = Return None s1"
  shows "mbuf_split cc_alloc p addr cb cbarg s = Return None s \<and> s1 = s"
  using assms mbuf_borrow_None[OF assms] by (simp add: mbuf_split_def seq_def)

theorem split_fails_unchanged_witness:
  "mbuf_borrow failing_alloc ex_state = Return None ex_state \<and>
   mbuf_split failing_alloc 116 103 (Some stopping_cb) 0 ex_state = Return None ex_state"
proof -
  have b: "mbuf_borrow failing_alloc ex_state = Return None ex_state"
    by (simp add: mbuf_borrow_fail failing_alloc_def ex_state_def)
  from split_fails_unchanged[OF b, of 116 103 "Some stopping_cb" 0] b show ?thesis by simp
qed

text \<open>
  C10. A copy of zero bytes returns at once: for every buffer, source address and state,
  \<^verbatim>\<open>mbuf_copy(mbuf, addr, 0)\<close> returns with the state (cursors and bytes) unchanged and
  reaches no assertion, also when the buffer is full or \<open>addr\<close> lies inside it.
\<close>

theorem mbuf_copy_zero_unchanged: "mbuf_copy p addr 0 s = Return () s"
  by (simp add: mbuf_copy_def)

end
